theory Spec2Isabelle
  imports Main "HOL-Library.AList" "HOL-Library.Word" "HOL-Library.Sublist" "HOL-Library.Multiset"
    "HOL-Library.Char_ord"
begin

section \<open>The message model (email.go)\<close>

text \<open>
  A Go \<open>string\<close> is a sequence of bytes and so is a HOL \<open>string\<close> (a \<open>char\<close> is
  eight bits); a \<open>[]byte\<close> is a list of 8-bit words. A nil slice and an empty slice
  both have length 0 and the code only ever asks for the length, so both are \<open>[]\<close>.
\<close>

type_synonym byte = "8 word"

record Attachment =
  Filename :: string
  Content :: "byte list"
  MimeType :: string

record Message =
  From :: string
  To :: "string list"
  Cc :: "string list"
  Bcc :: "string list"
  Subject :: string
  Body :: string
  HTML :: bool
  Attachments :: "Attachment list"

text \<open>
  Go errors. \<open>fmt.Errorf\<close> with a plain format gives an error that carries its text;
  with the verb \<open>%w\<close> it gives an error that carries the text before the verb and
  wraps its cause. A function that returns only \<open>error\<close> returns
  \<open>error + unit\<close> here: \<open>Inr ()\<close> is Go's \<open>nil\<close>.
\<close>

datatype error = Errorf string | Wrapf string error

fun Error :: "error \<Rightarrow> string" where
  "Error (Errorf s) = s"
| "Error (Wrapf p e) = p @ Error e"

text \<open>\<open>Message.Validate\<close>, email.go lines 205-219.\<close>

definition Validate :: "Message \<Rightarrow> error + unit" where
  "Validate m =
     (if From m = [] then Inl (Errorf ''from address is required'')
      else if length (To m) = 0 then Inl (Errorf ''at least one recipient is required'')
      else if Subject m = [] then Inl (Errorf ''subject is required'')
      else if Body m = [] then Inl (Errorf ''body is required'')
      else Inr ())"

section \<open>What the Go runtime and the standard library supply\<close>

text \<open>
  Four things a call takes from outside the repository: the clock
  (\<open>time.Now().UnixNano()\<close>, an \<open>int64\<close>), the order in which \<open>range\<close> visits the
  entries of a map (unspecified by the language and randomised by the runtime), the
  Unicode case tables behind \<open>strings.ToLower\<close>, and the platform the program is built
  for, which decides what \<open>os.IsPathSeparator\<close> accepts. They are the fields of a
  record that every function that uses one of them takes as its first argument. The map order is a
  ranking of the keys: \<open>range\<close> visits the entries by ascending rank, so every ranking
  gives a permutation of the entries and every permutation comes from some ranking.
\<close>

record runtime =
  timeNowUnixNano :: "64 word"
  mapRangeRank :: "string \<Rightarrow> nat"
  unicodeToLower :: "string \<Rightarrow> string"
  goosWindows :: bool

abbreviation CRLF :: string where
  "CRLF \<equiv> [CHR 0x0D, CHR 0x0A]"

abbreviation dquote :: char where
  "dquote \<equiv> CHR 0x22"

text \<open>The verb \<open>%d\<close> of \<open>fmt.Sprintf\<close> on an \<open>int64\<close>: decimal digits, a minus sign first
  when the number is negative.\<close>

function digits :: "nat \<Rightarrow> string" where
  "digits n = (if n < 10 then [''0123456789'' ! n] else digits (n div 10) @ [''0123456789'' ! (n mod 10)])"
  by pat_completeness auto
termination
  by (relation "measure (\<lambda>n. n)") auto

declare digits.simps [simp del]

definition FormatInt :: "int \<Rightarrow> string" where
  "FormatInt i = (if i < 0 then CHR ''-'' # digits (nat (- i)) else digits (nat i))"

text \<open>\<open>strings.Join\<close>.\<close>

fun Join :: "string list \<Rightarrow> string \<Rightarrow> string" where
  "Join [] sep = []"
| "Join [x] sep = x"
| "Join (x # y # ys) sep = x @ sep @ Join (y # ys) sep"

text \<open>\<open>for k, v := range headers\<close>: the entries of the map, in the runtime's order.\<close>

definition range_map :: "runtime \<Rightarrow> (string \<times> string) list \<Rightarrow> (string \<times> string) list" where
  "range_map rt headers = sort_key (\<lambda>kv. mapRangeRank rt (fst kv)) headers"

text \<open>
  \<open>os.IsPathSeparator\<close>: the slash, and on Windows the backslash too.
  \<open>filepath.Ext\<close>: the suffix that starts at the last dot of the last path element,
  empty when that element has no dot. The loop runs from the last byte backwards;
  \<open>ext_scan\<close> takes the bytes still to visit, last byte first, and the bytes already
  passed.
\<close>

definition IsPathSeparator :: "runtime \<Rightarrow> char \<Rightarrow> bool" where
  "IsPathSeparator rt c = (c = CHR ''/'' \<or> (goosWindows rt \<and> c = CHR 0x5C))"

fun ext_scan :: "runtime \<Rightarrow> string \<Rightarrow> string \<Rightarrow> string" where
  "ext_scan rt [] passed = []"
| "ext_scan rt (c # cs) passed =
     (if IsPathSeparator rt c then []
      else if c = CHR ''.'' then c # passed
      else ext_scan rt cs (c # passed))"

definition Ext :: "runtime \<Rightarrow> string \<Rightarrow> string" where
  "Ext rt path = ext_scan rt (rev path) []"

text \<open>
  \<open>strings.ToLower\<close>: a string of ASCII bytes only is mapped byte by byte
  (\<open>c += 'a' - 'A'\<close> for an upper-case letter); any other string goes through the
  Unicode tables.
\<close>

definition lower_byte :: "char \<Rightarrow> char" where
  "lower_byte c =
     (if CHR ''A'' \<le> c \<and> c \<le> CHR ''Z''
      then ''abcdefghijklmnopqrstuvwxyz'' ! (of_char c - of_char CHR ''A'')
      else c)"

definition ToLower :: "runtime \<Rightarrow> string \<Rightarrow> string" where
  "ToLower rt s =
     (if list_all (\<lambda>c. (of_char c :: nat) < 128) s then map lower_byte s
      else unicodeToLower rt s)"

text \<open>
  \<open>encoding/base64\<close>, \<open>EncodeToString\<close> of an encoding with padding: three bytes give
  four characters of the alphabet, a last group of one or two bytes is padded with
  \<open>=\<close>. An encoding is its alphabet of 64 characters.
\<close>

definition StdEncoding :: string where
  "StdEncoding = ''ABCDEFGHIJKLMNOPQRSTUVWXYZabcdefghijklmnopqrstuvwxyz0123456789+/''"

definition URLEncoding :: string where
  "URLEncoding = ''ABCDEFGHIJKLMNOPQRSTUVWXYZabcdefghijklmnopqrstuvwxyz0123456789-_''"

fun EncodeToString :: "string \<Rightarrow> byte list \<Rightarrow> string" where
  "EncodeToString enc [] = []"
| "EncodeToString enc [b0] =
     [enc ! (unat b0 div 4), enc ! (unat b0 mod 4 * 16), CHR ''='', CHR ''='']"
| "EncodeToString enc [b0, b1] =
     [enc ! (unat b0 div 4), enc ! (unat b0 mod 4 * 16 + unat b1 div 16),
      enc ! (unat b1 mod 16 * 4), CHR ''='']"
| "EncodeToString enc (b0 # b1 # b2 # bs) =
     [enc ! (unat b0 div 4), enc ! (unat b0 mod 4 * 16 + unat b1 div 16),
      enc ! (unat b1 mod 16 * 4 + unat b2 div 64), enc ! (unat b2 mod 64)]
     @ EncodeToString enc bs"

text \<open>The conversion \<open>[]byte(s)\<close> of a string.\<close>

definition bytes_of_string :: "string \<Rightarrow> byte list" where
  "bytes_of_string s = map (\<lambda>c. of_nat (of_char c)) s"

section \<open>Content types (outlook.go)\<close>

text \<open>\<open>getContentType\<close>: a switch on the lower-cased extension.\<close>

definition getContentType :: "runtime \<Rightarrow> string \<Rightarrow> string" where
  "getContentType rt filename =
     (let ext = ToLower rt (Ext rt filename) in
      if ext = ''.pdf'' then ''application/pdf''
      else if ext = ''.doc'' then ''application/msword''
      else if ext = ''.docx'' then
        ''application/vnd.openxmlformats-officedocument.wordprocessingml.document''
      else if ext = ''.xls'' then ''application/vnd.ms-excel''
      else if ext = ''.xlsx'' then
        ''application/vnd.openxmlformats-officedocument.spreadsheetml.sheet''
      else if ext = ''.png'' then ''image/png''
      else if ext = ''.jpg'' \<or> ext = ''.jpeg'' then ''image/jpeg''
      else if ext = ''.gif'' then ''image/gif''
      else if ext = ''.txt'' then ''text/plain''
      else if ext = ''.html'' \<or> ext = ''.htm'' then ''text/html''
      else if ext = ''.zip'' then ''application/zip''
      else if ext = ''.csv'' then ''text/csv''
      else if ext = ''.xml'' then ''application/xml''
      else if ext = ''.json'' then ''application/json''
      else ''application/octet-stream'')"

section \<open>The MIME encoder (gmail.go)\<close>

text \<open>
  A \<open>strings.Builder\<close> is the string written so far and \<open>WriteString\<close> appends to it;
  a function that writes to the builder takes it and returns it.

  The loop of \<open>addAttachment\<close> that writes the encoded content in lines of 76
  characters: \<open>i\<close> is the loop variable, \<open>encoded[i:end]\<close> is
  \<open>take (end - i) (drop i encoded)\<close>.
\<close>

function write_encoded :: "nat \<Rightarrow> string \<Rightarrow> string \<Rightarrow> string" where
  "write_encoded i encoded message =
     (if i < length encoded then
        (let end = (if i + 76 > length encoded then length encoded else i + 76)
         in write_encoded (i + 76) encoded (message @ take (end - i) (drop i encoded) @ CRLF))
      else message)"
  by pat_completeness auto
termination
  by (relation "measure (\<lambda>(i, encoded, message). length encoded - i)") auto

declare write_encoded.simps [simp del]

definition resolveMimeType :: "runtime \<Rightarrow> Attachment \<Rightarrow> string" where
  "resolveMimeType rt att =
     (if MimeType att = [] then getContentType rt (Filename att) else MimeType att)"

definition addAttachment :: "runtime \<Rightarrow> string \<Rightarrow> Attachment \<Rightarrow> string \<Rightarrow> string" where
  "addAttachment rt message att boundary =
     (let mimeType = resolveMimeType rt att;
          message = message @ ''--'' @ boundary @ CRLF;
          message = message @ ''Content-Type: '' @ mimeType @ ''; name='' @ [dquote]
                      @ Filename att @ [dquote] @ CRLF;
          message = message @ ''Content-Transfer-Encoding: base64'' @ CRLF;
          message = message @ ''Content-Disposition: attachment; filename='' @ [dquote]
                      @ Filename att @ [dquote] @ CRLF;
          message = message @ CRLF;
          encoded = EncodeToString StdEncoding (Content att);
          message = write_encoded 0 encoded message
      in message @ CRLF)"

text \<open>The loop that writes the header map, one line \<open>key: value\<close> per entry.\<close>

fun write_headers :: "string \<Rightarrow> (string \<times> string) list \<Rightarrow> string" where
  "write_headers message [] = message"
| "write_headers message ((k, v) # kvs) = write_headers (message @ k @ '': '' @ v @ CRLF) kvs"

text \<open>
  The header map of \<open>createMessage\<close> before its \<open>Content-Type\<close> entry is set. The map
  is an association list with one entry per key; an assignment \<open>headers[k] = v\<close> is
  \<open>AList.update k v\<close>.
\<close>

definition base_headers :: "Message \<Rightarrow> (string \<times> string) list" where
  "base_headers msg =
     (let headers = AList.update ''From'' (From msg) [];
          headers = AList.update ''To'' (Join (To msg) '', '') headers;
          headers = (if length (Cc msg) > 0
                     then AList.update ''Cc'' (Join (Cc msg) '', '') headers else headers);
          headers = (if length (Bcc msg) > 0
                     then AList.update ''Bcc'' (Join (Bcc msg) '', '') headers else headers);
          headers = AList.update ''Subject'' (Subject msg) headers
      in AList.update ''MIME-Version'' ''1.0'' headers)"

definition make_boundary :: "runtime \<Rightarrow> string" where
  "make_boundary rt = ''boundary-'' @ FormatInt (sint (timeNowUnixNano rt))"

definition body_content_type :: "Message \<Rightarrow> string" where
  "body_content_type msg =
     (if HTML msg then ''text/html; charset=utf-8'' else ''text/plain; charset=utf-8'')"

text \<open>
  \<open>createMessage\<close>, up to the line that base64-encodes the whole message: the
  contents of the builder \<open>message\<close> there.
\<close>

definition message_String :: "runtime \<Rightarrow> Message \<Rightarrow> string" where
  "message_String rt msg =
     (let headers = base_headers msg in
      if length (Attachments msg) > 0 then
        (let boundary = make_boundary rt;
             headers = AList.update ''Content-Type'' (''multipart/mixed; boundary='' @ boundary) headers;
             message = write_headers [] (range_map rt headers);
             message = message @ CRLF;
             message = message @ ''--'' @ boundary @ CRLF;
             message = message @ ''Content-Type: '' @ body_content_type msg @ CRLF;
             message = message @ CRLF;
             message = message @ Body msg;
             message = message @ CRLF @ CRLF;
             message = foldl (\<lambda>message att. addAttachment rt message att boundary)
                         message (Attachments msg)
         in message @ ''--'' @ boundary @ ''--'' @ CRLF)
      else
        (let headers = AList.update ''Content-Type'' (body_content_type msg) headers;
             message = write_headers [] (range_map rt headers);
             message = message @ CRLF
         in message @ Body msg))"

record gmail_Message =
  Raw :: string

definition createMessage :: "runtime \<Rightarrow> Message \<Rightarrow> error + gmail_Message" where
  "createMessage rt msg =
     Inr \<lparr>Raw = EncodeToString URLEncoding (bytes_of_string (message_String rt msg))\<rparr>"

section \<open>The client (email.go)\<close>

text \<open>
  A \<open>context.Context\<close> is the background context or a context with a deadline in
  nanoseconds of the clock; \<open>context.WithTimeout\<close> reads the clock, which the model
  takes as an argument. What a provider does with a message is outside the repository:
  a provider is a function of the context, the message and the state of the world
  beyond the process, which returns its result and the new state of that world. A
  call that does not reach the provider leaves the world as it was.
\<close>

datatype Context = Background | WithDeadline Context int

definition Second :: int where
  "Second = 1000000000"

definition WithTimeout :: "int \<Rightarrow> Context \<Rightarrow> int \<Rightarrow> Context" where
  "WithTimeout now parent timeout = WithDeadline parent (now + timeout)"

type_synonym 'w Provider = "Context \<Rightarrow> Message \<Rightarrow> 'w \<Rightarrow> (error + unit) \<times> 'w"

record 'w Client =
  provider :: "'w Provider"

definition SendWithContext :: "'w Client \<Rightarrow> Context \<Rightarrow> Message \<Rightarrow> 'w \<Rightarrow> (error + unit) \<times> 'w" where
  "SendWithContext c ctx msg w =
     (case Validate msg of
        Inl err \<Rightarrow> (Inl (Wrapf ''invalid message: '' err), w)
      | Inr _ \<Rightarrow> provider c ctx msg w)"

definition Send :: "int \<Rightarrow> 'w Client \<Rightarrow> Message \<Rightarrow> 'w \<Rightarrow> (error + unit) \<times> 'w" where
  "Send now c msg w = SendWithContext c (WithTimeout now Background (30 * Second)) msg w"

text \<open>
  \<open>gmailProvider.Send\<close>. The call of the Gmail service is a function of the context,
  the message built and the world.
\<close>

definition gmailProvider_Send ::
  "runtime \<Rightarrow> (Context \<Rightarrow> gmail_Message \<Rightarrow> 'w \<Rightarrow> (error + unit) \<times> 'w) \<Rightarrow> 'w Provider" where
  "gmailProvider_Send rt service ctx msg w =
     (case createMessage rt msg of
        Inl err \<Rightarrow> (Inl (Wrapf ''unable to create message: '' err), w)
      | Inr gmailMsg \<Rightarrow>
          (case service ctx gmailMsg w of
             (Inl err, w') \<Rightarrow> (Inl (Wrapf ''unable to send message: '' err), w')
           | (Inr _, w') \<Rightarrow> (Inr (), w')))"

text \<open>
  \<open>NewClient\<close>. The two provider constructors call the vendors' libraries; they are
  the fields of \<open>vendors\<close>, functions of the sub-configuration and the world. A nil
  pointer to a sub-configuration is \<open>None\<close>.
\<close>

record OutlookConfig =
  TenantID :: string
  ClientID :: string
  ClientSecret :: string

record GmailConfig =
  CredentialsJSON :: "byte list"
  TokenJSON :: "byte list"

record Config =
  Provider :: string
  Outlook :: "OutlookConfig option"
  Gmail :: "GmailConfig option"

record 'w vendors =
  newOutlookProvider :: "OutlookConfig \<Rightarrow> 'w \<Rightarrow> (error + 'w Provider) \<times> 'w"
  newGmailProvider :: "GmailConfig \<Rightarrow> 'w \<Rightarrow> (error + 'w Provider) \<times> 'w"

definition wrap_provider :: "(error + 'w Provider) \<times> 'w \<Rightarrow> (error + 'w Client) \<times> 'w" where
  "wrap_provider r =
     (case r of
        (Inl err, w') \<Rightarrow> (Inl (Wrapf ''failed to create provider: '' err), w')
      | (Inr p, w') \<Rightarrow> (Inr \<lparr>provider = p\<rparr>, w'))"

definition NewClient :: "'w vendors \<Rightarrow> Config \<Rightarrow> 'w \<Rightarrow> (error + 'w Client) \<times> 'w" where
  "NewClient v config w =
     (if Provider config = ''outlook365'' then
        (case Outlook config of
           None \<Rightarrow> (Inl (Errorf ''outlook configuration is required''), w)
         | Some oc \<Rightarrow> wrap_provider (newOutlookProvider v oc w))
      else if Provider config = ''gmail'' then
        (case Gmail config of
           None \<Rightarrow> (Inl (Errorf ''gmail configuration is required''), w)
         | Some gc \<Rightarrow> wrap_provider (newGmailProvider v gc w))
      else (Inl (Errorf (''unsupported provider: '' @ Provider config)), w))"

section \<open>Notions the properties are stated with\<close>

text \<open>
  The table of the specification: the extensions it lists, each with the content type
  that the switch of \<open>getContentType\<close> returns for it. An extension is looked up with
  its leading dot; an extension that is not in the table gives the generic binary type.
\<close>

definition content_type_table :: "(string \<times> string) list" where
  "content_type_table =
     [(''pdf'', ''application/pdf''),
      (''doc'', ''application/msword''),
      (''docx'', ''application/vnd.openxmlformats-officedocument.wordprocessingml.document''),
      (''xls'', ''application/vnd.ms-excel''),
      (''xlsx'', ''application/vnd.openxmlformats-officedocument.spreadsheetml.sheet''),
      (''png'', ''image/png''),
      (''jpg'', ''image/jpeg''),
      (''jpeg'', ''image/jpeg''),
      (''gif'', ''image/gif''),
      (''txt'', ''text/plain''),
      (''html'', ''text/html''),
      (''htm'', ''text/html''),
      (''zip'', ''application/zip''),
      (''csv'', ''text/csv''),
      (''xml'', ''application/xml''),
      (''json'', ''application/json'')]"

definition table_lookup :: "string \<Rightarrow> string" where
  "table_lookup ext =
     (case map_of (map (\<lambda>(e, t). (CHR ''.'' # e, t)) content_type_table) ext of
        Some t \<Rightarrow> t
      | None \<Rightarrow> ''application/octet-stream'')"

text \<open>The last element of a path: what follows its last path separator.\<close>

definition last_element :: "runtime \<Rightarrow> string \<Rightarrow> string" where
  "last_element rt path = rev (takeWhile (\<lambda>c. \<not> IsPathSeparator rt c) (rev path))"

text \<open>
  The configuration errors of the specification: the three errors that \<open>NewClient\<close>
  makes itself. An error of a provider constructor is not one of them: \<open>NewClient\<close>
  wraps it.
\<close>

fun ConfigurationError :: "error \<Rightarrow> bool" where
  "ConfigurationError (Errorf s) =
     (s = ''outlook configuration is required'' \<or> s = ''gmail configuration is required''
      \<or> prefix ''unsupported provider: '' s)"
| "ConfigurationError (Wrapf p e) = False"

definition unknown_or_missing :: "Config \<Rightarrow> bool" where
  "unknown_or_missing config =
     ((Provider config \<noteq> ''outlook365'' \<and> Provider config \<noteq> ''gmail'')
      \<or> (Provider config = ''outlook365'' \<and> Outlook config = None)
      \<or> (Provider config = ''gmail'' \<and> Gmail config = None))"

text \<open>The position of the first occurrence of an element in a list.\<close>

definition position :: "'a list \<Rightarrow> 'a \<Rightarrow> nat" where
  "position xs x = length (takeWhile (\<lambda>y. y \<noteq> x) xs)"

text \<open>
  The pieces of the encoder's output. A header line is \<open>key: value\<close> and a line
  break; the header map is the map of \<open>createMessage\<close> with its \<open>Content-Type\<close> entry
  set; the text of one attachment part is what \<open>addAttachment\<close> writes to an empty
  builder; the multipart body is what follows the blank line after the headers when
  there are attachments. \<open>lines76\<close> cuts a string into lines of 76 characters, the
  last one shorter when the length is not a multiple of 76.
\<close>

definition header_line :: "string \<times> string \<Rightarrow> string" where
  "header_line kv = fst kv @ '': '' @ snd kv @ CRLF"

definition all_headers :: "Message \<Rightarrow> string \<Rightarrow> (string \<times> string) list" where
  "all_headers msg content_type = AList.update ''Content-Type'' content_type (base_headers msg)"

definition part_text :: "runtime \<Rightarrow> string \<Rightarrow> Attachment \<Rightarrow> string" where
  "part_text rt boundary att = addAttachment rt [] att boundary"

definition multipart_body :: "runtime \<Rightarrow> string \<Rightarrow> Message \<Rightarrow> string" where
  "multipart_body rt boundary msg =
     ''--'' @ boundary @ CRLF @ ''Content-Type: '' @ body_content_type msg @ CRLF @ CRLF
     @ Body msg @ CRLF @ CRLF
     @ concat (map (part_text rt boundary) (Attachments msg))
     @ ''--'' @ boundary @ ''--'' @ CRLF"

function lines76 :: "string \<Rightarrow> string list" where
  "lines76 s = (if s = [] then [] else take 76 s # lines76 (drop 76 s))"
  by pat_completeness auto
termination
  by (relation "measure length") auto

declare lines76.simps [simp del]

text \<open>
  Reading the output back. \<open>lines_of\<close> splits a text at its line breaks (CR LF); the
  header block of a text is its lines up to the first empty line, and the body section is
  the text that follows that empty line. A line is a header of a given name when it
  starts with the name and a colon. A string has no line break when it contains
  neither CR nor LF; the header fields of a message are single lines when its
  sender, its addresses and its subject have no line break.
\<close>

fun push_front :: "'a \<Rightarrow> 'a list list \<Rightarrow> 'a list list" where
  "push_front x [] = [[x]]"
| "push_front x (l # ls) = (x # l) # ls"

fun lines_of :: "string \<Rightarrow> string list" where
  "lines_of [] = [[]]"
| "lines_of [c] = [[c]]"
| "lines_of (c # d # cs) =
     (if c = CHR 0x0D \<and> d = CHR 0x0A then [] # lines_of cs
      else push_front c (lines_of (d # cs)))"

definition header_block :: "string \<Rightarrow> string list" where
  "header_block text = takeWhile (\<lambda>l. l \<noteq> []) (lines_of text)"

definition body_lines :: "string \<Rightarrow> string list" where
  "body_lines text = tl (dropWhile (\<lambda>l. l \<noteq> []) (lines_of text))"


definition is_header :: "string \<Rightarrow> string \<Rightarrow> bool" where
  "is_header name l = prefix (name @ '':'') l"

definition no_line_break :: "string \<Rightarrow> bool" where
  "no_line_break s = (CHR 0x0D \<notin> set s \<and> CHR 0x0A \<notin> set s)"

definition single_line_fields :: "Message \<Rightarrow> bool" where
  "single_line_fields msg =
     (no_line_break (From msg) \<and> list_all no_line_break (To msg) \<and> list_all no_line_break (Cc msg)
      \<and> list_all no_line_break (Bcc msg) \<and> no_line_break (Subject msg))"

text \<open>
  A header line without its line break; the value of the \<open>Content-Type\<close> entry of the
  header map, and the text after the blank line, in the two forms of the output.
\<close>

definition header_text :: "string \<times> string \<Rightarrow> string" where
  "header_text kv = fst kv @ '': '' @ snd kv"

definition content_type_value :: "runtime \<Rightarrow> Message \<Rightarrow> string" where
  "content_type_value rt msg =
     (if Attachments msg = [] then body_content_type msg
      else ''multipart/mixed; boundary='' @ make_boundary rt)"

definition after_headers :: "runtime \<Rightarrow> Message \<Rightarrow> string" where
  "after_headers rt msg =
     (if Attachments msg = [] then Body msg else multipart_body rt (make_boundary rt) msg)"

text \<open>
  The header map of a call, with its \<open>Content-Type\<close> entry, and the order in which the
  call visits its keys.
\<close>

definition header_map :: "runtime \<Rightarrow> Message \<Rightarrow> (string \<times> string) list" where
  "header_map rt msg = all_headers msg (content_type_value rt msg)"

definition visiting_order :: "runtime \<Rightarrow> Message \<Rightarrow> string list" where
  "visiting_order rt msg = map fst (range_map rt (header_map rt msg))"

text \<open>
  Decoding base64 with padding: four characters of the alphabet give three bytes, a
  last group padded with \<open>=\<close> gives one or two. A character outside the alphabet,
  or a length that is not a multiple of four, gives \<open>None\<close>. An alphabet is 64
  different characters, none of them the padding character. \<open>string_of_bytes\<close> is
  the conversion \<open>string(b)\<close> of a byte slice.
\<close>

definition alphabet :: "string \<Rightarrow> bool" where
  "alphabet enc = (distinct enc \<and> length enc = 64 \<and> CHR ''='' \<notin> set enc)"

definition string_of_bytes :: "byte list \<Rightarrow> string" where
  "string_of_bytes bs = map (\<lambda>b. char_of (unat b)) bs"

fun index_of :: "string \<Rightarrow> char \<Rightarrow> nat option" where
  "index_of [] c = None"
| "index_of (x # xs) c = (if x = c then Some 0 else map_option Suc (index_of xs c))"

definition decode_quad :: "string \<Rightarrow> char \<Rightarrow> char \<Rightarrow> char \<Rightarrow> char \<Rightarrow> byte list option" where
  "decode_quad enc a b c d =
     (case (index_of enc a, index_of enc b, index_of enc c, index_of enc d) of
        (Some i, Some j, Some k, Some l) \<Rightarrow>
          Some [of_nat (i * 4 + j div 16), of_nat (j mod 16 * 16 + k div 4), of_nat (k mod 4 * 64 + l)]
      | _ \<Rightarrow> None)"

definition decode_pad1 :: "string \<Rightarrow> char \<Rightarrow> char \<Rightarrow> char \<Rightarrow> byte list option" where
  "decode_pad1 enc a b c =
     (case (index_of enc a, index_of enc b, index_of enc c) of
        (Some i, Some j, Some k) \<Rightarrow> Some [of_nat (i * 4 + j div 16), of_nat (j mod 16 * 16 + k div 4)]
      | _ \<Rightarrow> None)"

definition decode_pad2 :: "string \<Rightarrow> char \<Rightarrow> char \<Rightarrow> byte list option" where
  "decode_pad2 enc a b =
     (case (index_of enc a, index_of enc b) of
        (Some i, Some j) \<Rightarrow> Some [of_nat (i * 4 + j div 16)]
      | _ \<Rightarrow> None)"

fun DecodeString :: "string \<Rightarrow> string \<Rightarrow> byte list option" where
  "DecodeString enc [] = Some []"
| "DecodeString enc (a # b # c # d # rest) =
     (if rest = [] \<and> d = CHR ''='' then
        (if c = CHR ''='' then decode_pad2 enc a b else decode_pad1 enc a b c)
      else
        (case decode_quad enc a b c d of
           None \<Rightarrow> None
         | Some bs \<Rightarrow> map_option (\<lambda>tail. bs @ tail) (DecodeString enc rest)))"
| "DecodeString enc _ = None"

text \<open>
  Reading a multipart message back, as a reader of RFC 2046 does.

  The boundary is not given to the reader: it is the \<open>boundary\<close> parameter of the first
  \<open>Content-Type\<close> header of the header block, when the media type of that header is a
  \<open>multipart\<close> type. Field names, media types and parameter names are matched without
  regard to the case of their letters; the value of a field starts after the colon
  and the white space that follows it; the parameters of a value follow its
  semicolons, and the value of a parameter may be quoted.
\<close>

definition lwsp :: "char \<Rightarrow> bool" where
  "lwsp c = (c = CHR '' '' \<or> c = CHR 0x09)"

definition header_named :: "string \<Rightarrow> string \<Rightarrow> bool" where
  "header_named name l = prefix (map lower_byte name @ '':'') (map lower_byte l)"

definition field_value :: "string \<Rightarrow> string" where
  "field_value l = dropWhile lwsp (tl (dropWhile (\<lambda>c. c \<noteq> CHR '':'') l))"

fun split_on :: "char \<Rightarrow> string \<Rightarrow> string list" where
  "split_on c [] = [[]]"
| "split_on c (x # xs) = (if x = c then [] # split_on c xs else push_front x (split_on c xs))"

definition unquote :: "string \<Rightarrow> string" where
  "unquote s =
     (if 2 \<le> length s \<and> hd s = dquote \<and> last s = dquote then butlast (tl s) else s)"

definition parameter :: "string \<Rightarrow> string \<Rightarrow> string option" where
  "parameter name v =
     (case filter (\<lambda>p. prefix (map lower_byte name @ ''='') (map lower_byte p))
             (map (dropWhile lwsp) (tl (split_on CHR '';'' v))) of
        [] \<Rightarrow> None
      | p # _ \<Rightarrow> Some (unquote (drop (length name + 1) p)))"

text \<open>
  The media type of a value is what precedes its first semicolon, in lower case. A
  reader may skip more than spaces and tabs before it, so what is skipped here is
  every byte that is not a printable character. A composite media type is a
  \<open>multipart\<close> or a \<open>message\<close> type.
\<close>

definition blank :: "char \<Rightarrow> bool" where
  "blank c = ((of_char c :: nat) < 33 \<or> 126 < (of_char c :: nat))"

definition media_type :: "string \<Rightarrow> string" where
  "media_type v = map lower_byte (takeWhile (\<lambda>c. c \<noteq> CHR '';'') (dropWhile blank v))"

definition composite :: "string \<Rightarrow> bool" where
  "composite v = (prefix ''multipart/'' (media_type v) \<or> prefix ''message/'' (media_type v))"

definition boundary_of :: "string \<Rightarrow> string option" where
  "boundary_of text =
     (case filter (header_named ''Content-Type'') (header_block text) of
        [] \<Rightarrow> None
      | l # _ \<Rightarrow>
          (if prefix ''multipart/'' (media_type (field_value l))
           then parameter ''boundary'' (field_value l)
           else None))"

text \<open>
  The delimiter of a boundary is the boundary after two dashes, and the closing
  delimiter has two more dashes at its end. A line of the body is a delimiter line
  when it is the delimiter followed by nothing but spaces and tabs (the transport
  padding of RFC 2046), and likewise a closing delimiter line. The lines before the
  first delimiter line are the preamble; the parts are the runs of lines between
  delimiter lines, up to the closing delimiter line or the end of the text. A text
  that is not a multipart message has no parts.

  The headers of a part are its lines up to its first empty line and its content
  lines are the lines after that one. A part is an attachment part when one of its
  headers is \<open>Content-Disposition: attachment\<close>. The type of a part is the value of
  its first \<open>Content-Type\<close> header, and \<open>text/plain\<close> when it has none. The body of a
  part of a composite type is made of entities, not of encoded content (RFC 2045,
  section 6.4, allows it no transfer encoding), so a reader decodes the content lines
  of the other parts only: \<open>part_bytes\<close> is what it obtains from a part.
\<close>

definition delimiter :: "string \<Rightarrow> string" where
  "delimiter boundary = ''--'' @ boundary"

definition close_delimiter :: "string \<Rightarrow> string" where
  "close_delimiter boundary = ''--'' @ boundary @ ''--''"

definition delimiter_line :: "string \<Rightarrow> string \<Rightarrow> bool" where
  "delimiter_line boundary l =
     (prefix (delimiter boundary) l \<and> list_all lwsp (drop (length (delimiter boundary)) l))"

definition close_delimiter_line :: "string \<Rightarrow> string \<Rightarrow> bool" where
  "close_delimiter_line boundary l =
     (prefix (close_delimiter boundary) l
      \<and> list_all lwsp (drop (length (close_delimiter boundary)) l))"

fun segments :: "string \<Rightarrow> string list \<Rightarrow> string list list" where
  "segments boundary [] = [[]]"
| "segments boundary (l # ls) =
     (if close_delimiter_line boundary l then [[]]
      else if delimiter_line boundary l then [] # segments boundary ls
      else push_front l (segments boundary ls))"

fun skip_preamble :: "string \<Rightarrow> string list \<Rightarrow> string list list" where
  "skip_preamble boundary [] = []"
| "skip_preamble boundary (l # ls) =
     (if close_delimiter_line boundary l then []
      else if delimiter_line boundary l then segments boundary ls
      else skip_preamble boundary ls)"

definition multipart_parts :: "string \<Rightarrow> string list list" where
  "multipart_parts text =
     (case boundary_of text of
        None \<Rightarrow> []
      | Some boundary \<Rightarrow> skip_preamble boundary (body_lines text))"

definition part_headers :: "string list \<Rightarrow> string list" where
  "part_headers part = takeWhile (\<lambda>l. l \<noteq> []) part"

definition part_content :: "string list \<Rightarrow> string list" where
  "part_content part = tl (dropWhile (\<lambda>l. l \<noteq> []) part)"

definition is_attachment :: "string list \<Rightarrow> bool" where
  "is_attachment part = list_ex (prefix ''Content-Disposition: attachment'') (part_headers part)"

definition attachment_parts :: "string \<Rightarrow> string list list" where
  "attachment_parts text = filter is_attachment (multipart_parts text)"

definition part_type :: "string list \<Rightarrow> string" where
  "part_type part =
     (case filter (header_named ''Content-Type'') (part_headers part) of
        [] \<Rightarrow> ''text/plain''
      | l # _ \<Rightarrow> field_value l)"

definition part_bytes :: "string list \<Rightarrow> byte list option" where
  "part_bytes part =
     (if composite (part_type part) then None
      else DecodeString StdEncoding (concat (part_content part)))"

text \<open>
  The attachments of a message are single lines when no file name and no explicit MIME
  type contains a line break, and discrete when no explicit MIME type is a composite
  type. The body of a message is clear of the boundary when
  none of its lines starts with the delimiter of the call's boundary, which is what
  RFC 2046 asks of the text of a part. A line starts at the start of the body and
  after every CR and every LF, so that the condition does not depend on what a
  reader takes as the end of a line.
\<close>

definition single_line_attachments :: "Message \<Rightarrow> bool" where
  "single_line_attachments msg =
     list_all (\<lambda>att. no_line_break (Filename att) \<and> no_line_break (MimeType att)) (Attachments msg)"

definition discrete_attachments :: "Message \<Rightarrow> bool" where
  "discrete_attachments msg = list_all (\<lambda>att. \<not> composite (MimeType att)) (Attachments msg)"

fun after_breaks :: "string \<Rightarrow> string list" where
  "after_breaks [] = []"
| "after_breaks (c # cs) =
     (if c = CHR 0x0D \<or> c = CHR 0x0A then cs # after_breaks cs else after_breaks cs)"

definition line_starts :: "string \<Rightarrow> string list" where
  "line_starts s = s # after_breaks s"

definition body_clear_of_boundary :: "runtime \<Rightarrow> Message \<Rightarrow> bool" where
  "body_clear_of_boundary rt msg =
     (\<not> list_ex (prefix (delimiter (make_boundary rt))) (line_starts (Body msg)))"

text \<open>The lines that \<open>addAttachment\<close> writes after the delimiter line of a part.\<close>

definition part_lines :: "runtime \<Rightarrow> Attachment \<Rightarrow> string list" where
  "part_lines rt att =
     [''Content-Type: '' @ resolveMimeType rt att @ ''; name='' @ [dquote] @ Filename att @ [dquote],
      ''Content-Transfer-Encoding: base64'',
      ''Content-Disposition: attachment; filename='' @ [dquote] @ Filename att @ [dquote],
      []]
     @ lines76 (EncodeToString StdEncoding (Content att)) @ [[]]"

text \<open>
  Inputs for the examples. The world of the examples is the log of the calls that
  reached a vendor's library: a provider that appends the context and the message it
  is sent, constructors that append their name.
\<close>

datatype call = SendCall Context Message | NewOutlookCall | NewGmailCall

definition recording_provider :: "call list Provider" where
  "recording_provider ctx msg w = (Inr (), w @ [SendCall ctx msg])"

definition recording_vendors :: "call list vendors" where
  "recording_vendors =
     \<lparr>newOutlookProvider = (\<lambda>oc w. (Inr recording_provider, w @ [NewOutlookCall])),
      newGmailProvider = (\<lambda>gc w. (Inl (Errorf ''invalid token''), w @ [NewGmailCall]))\<rparr>"

definition example_message :: Message where
  "example_message =
     \<lparr>From = ''a@x.com'', To = [''b@y.com''], Cc = [], Bcc = [], Subject = ''Hi'',
      Body = ''Hello'', HTML = False, Attachments = []\<rparr>"

definition example_runtime :: runtime where
  "example_runtime =
     \<lparr>timeNowUnixNano = 0, mapRangeRank = (\<lambda>k. 0), unicodeToLower = (\<lambda>s. s),
      goosWindows = False\<rparr>"

text \<open>A runtime that differs from \<open>example_runtime\<close> in the map order only: it visits
  the key \<open>From\<close> last.\<close>

definition rank_from_last :: runtime where
  "rank_from_last =
     \<lparr>timeNowUnixNano = 0, mapRangeRank = (\<lambda>k. if k = ''From'' then 1 else 0),
      unicodeToLower = (\<lambda>s. s), goosWindows = False\<rparr>"

text \<open>
  Two more runtimes of the same process as \<open>example_runtime\<close>. The first ranks the keys
  differently and yet visits every header map of \<open>createMessage\<close> in the same order,
  because \<open>Content-Type\<close> is the last key set; the second differs in the clock reading
  only.
\<close>

definition content_type_last :: runtime where
  "content_type_last =
     \<lparr>timeNowUnixNano = 0, mapRangeRank = (\<lambda>k. if k = ''Content-Type'' then 1 else 0),
      unicodeToLower = (\<lambda>s. s), goosWindows = False\<rparr>"

definition clock_one :: runtime where
  "clock_one =
     \<lparr>timeNowUnixNano = 1, mapRangeRank = (\<lambda>k. 0), unicodeToLower = (\<lambda>s. s),
      goosWindows = False\<rparr>"

text \<open>Messages whose subject carries a line break and a header line of its own.\<close>

definition cc_injected :: Message where
  "cc_injected = example_message\<lparr>Subject := ''Hi'' @ CRLF @ ''Cc: eve@z.com''\<rparr>"


text \<open>
  A message whose attachment has a file name with an empty line in it; a message whose
  body has a line that is the delimiter of the boundary of \<open>example_runtime\<close>
  followed by a space, and the header of an attachment part after it; and a message
  with two attachments, the first of them longer than one line of base64.
\<close>

definition filename_injected :: Message where
  "filename_injected =
     example_message\<lparr>Attachments :=
       [\<lparr>Filename = ''a'' @ CRLF @ CRLF @ ''b'', Content = [1, 2, 3], MimeType = ''text/plain''\<rparr>]\<rparr>"

definition padded_delimiter :: Message where
  "padded_delimiter =
     example_message\<lparr>
       Body := ''Hello'' @ CRLF @ ''--boundary-0 '' @ CRLF
                 @ ''Content-Disposition: attachment'' @ CRLF @ CRLF @ ''AAAA'',
       Attachments := [\<lparr>Filename = ''b.txt'', Content = [72, 105], MimeType = ''text/plain''\<rparr>]\<rparr>"

definition two_attachments :: Message where
  "two_attachments =
     example_message\<lparr>Attachments :=
       [\<lparr>Filename = ''zeros.bin'', Content = replicate 60 0, MimeType = []\<rparr>,
        \<lparr>Filename = ''b.txt'', Content = [72, 105], MimeType = ''text/plain''\<rparr>]\<rparr>"

section \<open>Message validation\<close>

text \<open>
  Claim C3. \<open>Validate\<close> checks from, to, subject, body in this order and returns the
  error of the first check that fails; it returns \<open>nil\<close> exactly when all four are
  non-empty; and its result does not depend on cc, bcc or the attachments.
\<close>

theorem Validate_first_failure:
  "Validate m =
     (if From m = [] then Inl (Errorf ''from address is required'')
      else if To m = [] then Inl (Errorf ''at least one recipient is required'')
      else if Subject m = [] then Inl (Errorf ''subject is required'')
      else if Body m = [] then Inl (Errorf ''body is required'')
      else Inr ())
   \<and> (Validate m = Inr ()) = (From m \<noteq> [] \<and> To m \<noteq> [] \<and> Subject m \<noteq> [] \<and> Body m \<noteq> [])
   \<and> Validate (m\<lparr>Cc := cc, Bcc := bcc, Attachments := atts\<rparr>) = Validate m"
  by (simp add: Validate_def)

section \<open>Content types\<close>

lemma getContentType_table:
  "getContentType rt filename = table_lookup (ToLower rt (Ext rt filename))"
  by (simp add: getContentType_def table_lookup_def content_type_table_def Let_def)

lemma ext_scan_suffix:
  "CHR ''.'' \<notin> set s \<Longrightarrow> \<forall>c \<in> set s. \<not> IsPathSeparator rt c \<Longrightarrow>
   ext_scan rt (s @ CHR ''.'' # r) p = CHR ''.'' # rev s @ p"
  by (induction s arbitrary: p) (auto simp: IsPathSeparator_def)

lemma Ext_suffix:
  "CHR ''.'' \<notin> set s \<Longrightarrow> \<forall>c \<in> set s. \<not> IsPathSeparator rt c \<Longrightarrow>
   Ext rt (base @ CHR ''.'' # s) = CHR ''.'' # s"
  using ext_scan_suffix [of "rev s" rt "rev base" "[]"] by (simp add: Ext_def)

lemma ext_scan_nodot:
  "CHR ''.'' \<notin> set (takeWhile (\<lambda>c. \<not> IsPathSeparator rt c) s) \<Longrightarrow> ext_scan rt s p = []"
  by (induction s arbitrary: p) auto

lemma Ext_no_dot: "CHR ''.'' \<notin> set (last_element rt path) \<Longrightarrow> Ext rt path = []"
  by (simp add: Ext_def last_element_def ext_scan_nodot)

lemma ToLower_Nil: "ToLower rt [] = []"
  by (simp add: ToLower_def)

lemma ToLower_pdf: "ToLower rt ''.pdf'' = ''.pdf''"
  by (simp add: ToLower_def lower_byte_def)

lemma table_lookup_entry:
  assumes "(e, t) \<in> set content_type_table"
  shows "table_lookup (CHR ''.'' # e) = t"
proof -
  let ?dotted = "map (\<lambda>(e, t). (CHR ''.'' # e, t)) content_type_table"
  have "distinct (map fst ?dotted)"
    by (simp add: content_type_table_def)
  moreover have "(CHR ''.'' # e, t) \<in> set ?dotted"
    using assms by force
  ultimately have "map_of ?dotted (CHR ''.'' # e) = Some t"
    by (rule map_of_is_SomeI)
  then show ?thesis
    by (simp only: table_lookup_def option.case)
qed

text \<open>
  Claim C5. An attachment with an explicit MIME type keeps it. One without is given
  the type that the table has for the lower-cased extension of its file name: a file
  name that ends in \<open>.pdf\<close> gives \<open>application/pdf\<close>; a file name whose last element
  has no dot, or whose lower-cased extension is not in the table, gives
  \<open>application/octet-stream\<close>. The match ignores the case of the letters: lower-casing
  maps every upper-case letter to its lower-case letter, and an extension of ASCII
  bytes, in any mix of cases, whose lower-cased form is an entry of the table gives the
  type of that entry.
\<close>

theorem resolveMimeType_table:
  "resolveMimeType rt att =
     (if MimeType att = [] then table_lookup (ToLower rt (Ext rt (Filename att))) else MimeType att)
   \<and> (MimeType att = [] \<and> Filename att = base @ ''.pdf'' \<longrightarrow>
        resolveMimeType rt att = ''application/pdf'')
   \<and> (MimeType att = [] \<and> CHR ''.'' \<notin> set (last_element rt (Filename att)) \<longrightarrow>
        resolveMimeType rt att = ''application/octet-stream'')
   \<and> (MimeType att = [] \<and>
        ToLower rt (Ext rt (Filename att)) \<notin> set (map (\<lambda>(e, t). CHR ''.'' # e) content_type_table) \<longrightarrow>
        resolveMimeType rt att = ''application/octet-stream'')
   \<and> ToLower rt ''.ABCDEFGHIJKLMNOPQRSTUVWXYZ'' = ''.abcdefghijklmnopqrstuvwxyz''
   \<and> (MimeType att = [] \<and> Filename att = base @ CHR ''.'' # s \<and> CHR ''.'' \<notin> set s
        \<and> (\<forall>c \<in> set s. \<not> IsPathSeparator rt c \<and> (of_char c :: nat) < 128)
        \<and> (map lower_byte s, t) \<in> set content_type_table \<longrightarrow>
        resolveMimeType rt att = t)"
proof -
  have a: "resolveMimeType rt att =
     (if MimeType att = [] then table_lookup (ToLower rt (Ext rt (Filename att))) else MimeType att)"
    by (simp add: resolveMimeType_def getContentType_table)
  have b: "Ext rt (base @ ''.pdf'') = ''.pdf''"
    using Ext_suffix [of "''pdf''" rt base] by (simp add: IsPathSeparator_def)
  have c: "table_lookup ''.pdf'' = ''application/pdf''"
    by (simp add: table_lookup_def content_type_table_def)
  have d: "table_lookup [] = ''application/octet-stream''"
    by (simp add: table_lookup_def content_type_table_def)
  have e: "x \<notin> set (map (\<lambda>(e, t). CHR ''.'' # e) content_type_table) \<Longrightarrow>
      table_lookup x = ''application/octet-stream''" for x
    by (simp add: table_lookup_def content_type_table_def)
  have f: "ToLower rt ''.ABCDEFGHIJKLMNOPQRSTUVWXYZ'' = ''.abcdefghijklmnopqrstuvwxyz''"
    by (simp add: ToLower_def lower_byte_def)
  have g: "resolveMimeType rt att = t"
    if "MimeType att = []" "Filename att = base @ CHR ''.'' # s" "CHR ''.'' \<notin> set s"
      "\<forall>c \<in> set s. \<not> IsPathSeparator rt c \<and> (of_char c :: nat) < 128"
      "(map lower_byte s, t) \<in> set content_type_table"
  proof -
    have "Ext rt (Filename att) = CHR ''.'' # s"
      using that by (simp add: Ext_suffix)
    moreover have "ToLower rt (CHR ''.'' # s) = CHR ''.'' # map lower_byte s"
      using that(4) by (simp add: ToLower_def list_all_iff lower_byte_def)
    moreover have "table_lookup (CHR ''.'' # map lower_byte s) = t"
      using that(5) by (rule table_lookup_entry)
    ultimately show ?thesis
      using a that(1) by simp
  qed
  have h: "MimeType att = [] \<and> Filename att = base @ CHR ''.'' # s \<and> CHR ''.'' \<notin> set s
        \<and> (\<forall>c \<in> set s. \<not> IsPathSeparator rt c \<and> (of_char c :: nat) < 128)
        \<and> (map lower_byte s, t) \<in> set content_type_table \<longrightarrow>
        resolveMimeType rt att = t"
    using g by (intro impI) (elim conjE)
  have "resolveMimeType rt att =
     (if MimeType att = [] then table_lookup (ToLower rt (Ext rt (Filename att))) else MimeType att)
   \<and> (MimeType att = [] \<and> Filename att = base @ ''.pdf'' \<longrightarrow>
        resolveMimeType rt att = ''application/pdf'')
   \<and> (MimeType att = [] \<and> CHR ''.'' \<notin> set (last_element rt (Filename att)) \<longrightarrow>
        resolveMimeType rt att = ''application/octet-stream'')
   \<and> (MimeType att = [] \<and>
        ToLower rt (Ext rt (Filename att)) \<notin> set (map (\<lambda>(e, t). CHR ''.'' # e) content_type_table) \<longrightarrow>
        resolveMimeType rt att = ''application/octet-stream'')"
    using a b c d e by (simp add: ToLower_pdf ToLower_Nil Ext_no_dot)
  with f h show ?thesis
    by (elim conjE, intro conjI) assumption+
qed

theorem resolveMimeType_table_witness:
  "resolveMimeType example_runtime \<lparr>Filename = ''report.pdf'', Content = [], MimeType = []\<rparr>
     = ''application/pdf''
   \<and> resolveMimeType example_runtime \<lparr>Filename = ''docs/v1.2/README'', Content = [], MimeType = []\<rparr>
     = ''application/octet-stream''
   \<and> resolveMimeType example_runtime \<lparr>Filename = ''backup.tar.GZ'', Content = [], MimeType = []\<rparr>
     = ''application/octet-stream''
   \<and> resolveMimeType example_runtime \<lparr>Filename = ''report.pdf'', Content = [], MimeType = ''text/x-log''\<rparr>
     = ''text/x-log''
   \<and> resolveMimeType example_runtime \<lparr>Filename = ''REPORT.PDF'', Content = [], MimeType = []\<rparr>
     = ''application/pdf''
   \<and> resolveMimeType example_runtime \<lparr>Filename = ''photos/cat.JpEg'', Content = [], MimeType = []\<rparr>
     = ''image/jpeg''"
proof -
  have gz: "ToLower example_runtime (Ext example_runtime ''backup.tar.GZ'') = ''.gz''"
    by (simp add: ToLower_def Ext_def lower_byte_def IsPathSeparator_def example_runtime_def)
  have pdf: "resolveMimeType example_runtime \<lparr>Filename = ''report.pdf'', Content = [], MimeType = []\<rparr>
      = ''application/pdf''"
    by (rule resolveMimeType_table [of _ _ "''report''", THEN conjunct2, THEN conjunct1, THEN mp])
       simp
  have nodot: "resolveMimeType example_runtime
        \<lparr>Filename = ''docs/v1.2/README'', Content = [], MimeType = []\<rparr>
      = ''application/octet-stream''"
    by (rule resolveMimeType_table [THEN conjunct2, THEN conjunct2, THEN conjunct1, THEN mp])
       (simp add: last_element_def IsPathSeparator_def example_runtime_def)
  have unknown: "resolveMimeType example_runtime
        \<lparr>Filename = ''backup.tar.GZ'', Content = [], MimeType = []\<rparr>
      = ''application/octet-stream''"
    by (rule resolveMimeType_table
          [THEN conjunct2, THEN conjunct2, THEN conjunct2, THEN conjunct1, THEN mp])
       (simp add: gz content_type_table_def)
  have explicit: "resolveMimeType example_runtime
        \<lparr>Filename = ''report.pdf'', Content = [], MimeType = ''text/x-log''\<rparr>
      = ''text/x-log''"
    using resolveMimeType_table
            [of example_runtime "\<lparr>Filename = ''report.pdf'', Content = [], MimeType = ''text/x-log''\<rparr>",
             THEN conjunct1]
    by simp
  have upper: "resolveMimeType example_runtime \<lparr>Filename = ''REPORT.PDF'', Content = [], MimeType = []\<rparr>
      = ''application/pdf''"
    by (rule resolveMimeType_table [of _ _ "''REPORT''" "''PDF''" "''application/pdf''",
          THEN conjunct2, THEN conjunct2, THEN conjunct2, THEN conjunct2, THEN conjunct2, THEN mp])
       (simp add: IsPathSeparator_def example_runtime_def lower_byte_def content_type_table_def)
  have mixed: "resolveMimeType example_runtime
        \<lparr>Filename = ''photos/cat.JpEg'', Content = [], MimeType = []\<rparr>
      = ''image/jpeg''"
    by (rule resolveMimeType_table [of _ _ "''photos/cat''" "''JpEg''" "''image/jpeg''",
          THEN conjunct2, THEN conjunct2, THEN conjunct2, THEN conjunct2, THEN conjunct2, THEN mp])
       (simp add: IsPathSeparator_def example_runtime_def lower_byte_def content_type_table_def)
  show ?thesis
    using pdf nodot unknown explicit upper mixed by simp
qed

section \<open>The client\<close>

text \<open>
  Claim C7. \<open>Send\<close> and \<open>SendWithContext\<close> validate first. When validation fails they
  return the validation error wrapped as \<open>invalid message: ...\<close> and the world is as
  it was, whatever the provider is: the provider is not called. When validation
  succeeds the call is the provider's call on the same message, and what it returns
  is what the provider returns.
\<close>

theorem Send_validates_then_delegates:
  "(\<forall>e. Validate msg = Inl e \<longrightarrow>
       SendWithContext c ctx msg w = (Inl (Wrapf ''invalid message: '' e), w)
     \<and> Send now c msg w = (Inl (Wrapf ''invalid message: '' e), w))
   \<and> (Validate msg = Inr () \<longrightarrow>
       SendWithContext c ctx msg w = provider c ctx msg w
     \<and> Send now c msg w = provider c (WithTimeout now Background (30 * Second)) msg w)"
  by (simp add: SendWithContext_def Send_def)

theorem Send_validates_then_delegates_witness:
  "SendWithContext \<lparr>provider = recording_provider\<rparr> Background (example_message\<lparr>Subject := []\<rparr>) []
     = (Inl (Wrapf ''invalid message: '' (Errorf ''subject is required'')), [])
   \<and> Send 0 \<lparr>provider = recording_provider\<rparr> (example_message\<lparr>Subject := []\<rparr>) []
     = (Inl (Wrapf ''invalid message: '' (Errorf ''subject is required'')), [])
   \<and> SendWithContext \<lparr>provider = recording_provider\<rparr> Background example_message []
     = (Inr (), [SendCall Background example_message])
   \<and> Send 0 \<lparr>provider = recording_provider\<rparr> example_message []
     = (Inr (), [SendCall (WithDeadline Background 30000000000) example_message])"
proof -
  have bad: "Validate (example_message\<lparr>Subject := []\<rparr>) = Inl (Errorf ''subject is required'')"
    by (simp add: Validate_def example_message_def)
  have good: "Validate example_message = Inr ()"
    by (simp add: Validate_def example_message_def)
  show ?thesis
    using Send_validates_then_delegates
            [of "example_message\<lparr>Subject := []\<rparr>" "\<lparr>provider = recording_provider\<rparr>" Background "[]" 0]
          Send_validates_then_delegates
            [of example_message "\<lparr>provider = recording_provider\<rparr>" Background "[]" 0]
          bad good
    by (simp add: recording_provider_def WithTimeout_def Second_def)
qed

text \<open>
  Claim C9. \<open>Send\<close> is \<open>SendWithContext\<close> on the background context with a deadline
  30 seconds (30 000 000 000 nanoseconds) after the clock reading, so both return the
  same result and leave the same world.
\<close>

theorem Send_default_deadline:
  "Send now c msg w = SendWithContext c (WithDeadline Background (now + 30 * 1000000000)) msg w
   \<and> WithTimeout now Background (30 * Second) = WithDeadline Background (now + 30 * 1000000000)"
  by (simp add: Send_def WithTimeout_def Second_def)

lemma wrap_provider_not_config:
  "fst (wrap_provider r) = Inl e \<Longrightarrow> \<not> ConfigurationError e"
  by (cases r) (auto simp: wrap_provider_def split: sum.splits)

text \<open>
  Claim C8. \<open>NewClient\<close> returns a configuration error exactly when the selector is
  neither \<open>outlook365\<close> nor \<open>gmail\<close>, or it is \<open>outlook365\<close> and the Outlook
  sub-configuration is nil, or it is \<open>gmail\<close> and the Gmail sub-configuration is nil.
  In each of these cases the error is the one of that case and the world is as it
  was, whatever the constructors are: no provider is constructed. Every other error
  of \<open>NewClient\<close> is the error of a constructor, wrapped as
  \<open>failed to create provider: ...\<close>.
\<close>

theorem NewClient_configuration_error:
  "((\<exists>e. fst (NewClient v config w) = Inl e \<and> ConfigurationError e) = unknown_or_missing config)
   \<and> (Provider config \<noteq> ''outlook365'' \<and> Provider config \<noteq> ''gmail'' \<longrightarrow>
        NewClient v config w = (Inl (Errorf (''unsupported provider: '' @ Provider config)), w))
   \<and> (Provider config = ''outlook365'' \<and> Outlook config = None \<longrightarrow>
        NewClient v config w = (Inl (Errorf ''outlook configuration is required''), w))
   \<and> (Provider config = ''gmail'' \<and> Gmail config = None \<longrightarrow>
        NewClient v config w = (Inl (Errorf ''gmail configuration is required''), w))
   \<and> (\<forall>e. fst (NewClient v config w) = Inl e \<and> \<not> ConfigurationError e \<longrightarrow>
        (\<exists>cause. e = Wrapf ''failed to create provider: '' cause))"
proof -
  have "(\<exists>e. fst (NewClient v config w) = Inl e \<and> ConfigurationError e) = unknown_or_missing config"
    by (auto simp: NewClient_def unknown_or_missing_def split: option.splits
             dest: wrap_provider_not_config)
  moreover have "\<exists>cause. e = Wrapf ''failed to create provider: '' cause"
    if "fst (NewClient v config w) = Inl e" "\<not> ConfigurationError e" for e
    using that
    by (auto simp: NewClient_def wrap_provider_def split: option.splits if_splits sum.splits prod.splits)
  ultimately show ?thesis
    by (simp add: NewClient_def)
qed

theorem NewClient_configuration_error_witness:
  "NewClient recording_vendors \<lparr>Provider = ''unknown'', Outlook = None, Gmail = None\<rparr> []
     = (Inl (Errorf ''unsupported provider: unknown''), [])
   \<and> NewClient recording_vendors
        \<lparr>Provider = ''outlook365'', Outlook = None,
         Gmail = Some \<lparr>CredentialsJSON = [], TokenJSON = []\<rparr>\<rparr> []
     = (Inl (Errorf ''outlook configuration is required''), [])
   \<and> NewClient recording_vendors
        \<lparr>Provider = ''gmail'',
         Outlook = Some \<lparr>TenantID = ''t'', ClientID = ''c'', ClientSecret = ''s''\<rparr>,
         Gmail = None\<rparr> []
     = (Inl (Errorf ''gmail configuration is required''), [])
   \<and> \<not> (\<exists>e. fst (NewClient recording_vendors
        \<lparr>Provider = ''gmail'', Outlook = None,
         Gmail = Some \<lparr>CredentialsJSON = [], TokenJSON = []\<rparr>\<rparr> []) = Inl e \<and> ConfigurationError e)
   \<and> NewClient recording_vendors
        \<lparr>Provider = ''gmail'', Outlook = None,
         Gmail = Some \<lparr>CredentialsJSON = [], TokenJSON = []\<rparr>\<rparr> []
     = (Inl (Wrapf ''failed to create provider: '' (Errorf ''invalid token'')), [NewGmailCall])"
proof -
  have unknown: "NewClient recording_vendors \<lparr>Provider = ''unknown'', Outlook = None, Gmail = None\<rparr> []
     = (Inl (Errorf ''unsupported provider: unknown''), [])"
    using NewClient_configuration_error
            [of recording_vendors "\<lparr>Provider = ''unknown'', Outlook = None, Gmail = None\<rparr>" "[]"]
    by simp
  have outlook: "NewClient recording_vendors
        \<lparr>Provider = ''outlook365'', Outlook = None,
         Gmail = Some \<lparr>CredentialsJSON = [], TokenJSON = []\<rparr>\<rparr> []
     = (Inl (Errorf ''outlook configuration is required''), [])"
    using NewClient_configuration_error
            [of recording_vendors
                "\<lparr>Provider = ''outlook365'', Outlook = None,
                  Gmail = Some \<lparr>CredentialsJSON = [], TokenJSON = []\<rparr>\<rparr>" "[]"]
    by simp
  have gmail: "NewClient recording_vendors
        \<lparr>Provider = ''gmail'',
         Outlook = Some \<lparr>TenantID = ''t'', ClientID = ''c'', ClientSecret = ''s''\<rparr>,
         Gmail = None\<rparr> []
     = (Inl (Errorf ''gmail configuration is required''), [])"
    using NewClient_configuration_error
            [of recording_vendors
                "\<lparr>Provider = ''gmail'',
                  Outlook = Some \<lparr>TenantID = ''t'', ClientID = ''c'', ClientSecret = ''s''\<rparr>,
                  Gmail = None\<rparr>" "[]"]
    by simp
  have present: "\<not> (\<exists>e. fst (NewClient recording_vendors
        \<lparr>Provider = ''gmail'', Outlook = None,
         Gmail = Some \<lparr>CredentialsJSON = [], TokenJSON = []\<rparr>\<rparr> []) = Inl e \<and> ConfigurationError e)"
    using NewClient_configuration_error
            [of recording_vendors
                "\<lparr>Provider = ''gmail'', Outlook = None,
                  Gmail = Some \<lparr>CredentialsJSON = [], TokenJSON = []\<rparr>\<rparr>" "[]"]
    by (simp add: unknown_or_missing_def)
  have wrapped: "NewClient recording_vendors
        \<lparr>Provider = ''gmail'', Outlook = None,
         Gmail = Some \<lparr>CredentialsJSON = [], TokenJSON = []\<rparr>\<rparr> []
     = (Inl (Wrapf ''failed to create provider: '' (Errorf ''invalid token'')), [NewGmailCall])"
    by (simp add: NewClient_def recording_vendors_def wrap_provider_def)
  show ?thesis
    using unknown outlook gmail present wrapped by blast
qed

section \<open>The order of a map\<close>

text \<open>
  Every order of the entries of a map is the order of some ranking of its keys, so a
  property proved for every runtime holds for every order in which \<open>range\<close> may
  visit the header map.
\<close>

lemma position_inj: "x \<in> set xs \<Longrightarrow> position xs x = position xs y \<Longrightarrow> x = y"
proof (induction xs)
  case Nil
  then show ?case by simp
next
  case (Cons a xs)
  then show ?case by (auto simp: position_def split: if_splits)
qed

lemma map_position: "distinct xs \<Longrightarrow> map (position (ys @ xs)) xs = [length ys..<length ys + length xs]"
  if "set ys \<inter> set xs = {}"
  using that
proof (induction xs arbitrary: ys)
  case Nil
  then show ?case by simp
next
  case (Cons a xs)
  have a: "position (ys @ a # xs) a = length ys"
    using Cons.prems by (auto simp: position_def takeWhile_append takeWhile_eq_all_conv [THEN iffD2])
  have "map (position ((ys @ [a]) @ xs)) xs = [length (ys @ [a])..<length (ys @ [a]) + length xs]"
    using Cons.prems by (intro Cons.IH) auto
  then have "map (position (ys @ a # xs)) xs = [Suc (length ys)..<Suc (length ys) + length xs]"
    by simp
  then show ?case
    using a by (simp add: upt_conv_Cons del: upt_Suc)
qed

lemma filter_single: "distinct xs \<Longrightarrow> x \<in> set xs \<Longrightarrow> filter (\<lambda>y. x = y) xs = [x]"
  by (induction xs) (auto simp: filter_empty_conv)

lemma range_map_every_order:
  assumes "distinct (map fst headers)" and "mset ys = mset headers"
  shows "\<exists>rank. range_map (rt\<lparr>mapRangeRank := rank\<rparr>) headers = ys"
proof -
  let ?f = "\<lambda>kv. position (map fst ys) (fst kv)"
  have set_eq: "set ys = set headers"
    using assms(2) by (rule mset_eq_setD)
  have "mset (map fst ys) = mset (map fst headers)"
    using assms(2) by (metis mset_map)
  then have dk: "distinct (map fst ys)"
    using assms(1) by (metis mset_eq_imp_distinct_iff)
  then have dy: "distinct ys"
    by (simp add: distinct_map)
  have dh: "distinct headers"
    using assms(1) by (simp add: distinct_map)
  have inj: "x = y" if "x \<in> set ys" "y \<in> set ys" "?f x = ?f y" for x y
  proof -
    have "fst x = fst y"
      using that by (intro position_inj [of "fst x" "map fst ys"]) auto
    moreover have "inj_on fst (set ys)"
      using dk by (simp add: distinct_map)
    ultimately show ?thesis
      using that by (auto dest: inj_onD)
  qed
  have same: "filter (\<lambda>x. ?f k = ?f x) ys = filter (\<lambda>x. ?f k = ?f x) headers" if "k \<in> set ys" for k
  proof -
    have eq: "(?f k = ?f x) = (k = x)" if "x \<in> set ys" for x
      using inj [OF \<open>k \<in> set ys\<close> that] by blast
    have "filter (\<lambda>x. ?f k = ?f x) ys = filter (\<lambda>x. k = x) ys"
      using eq by (intro filter_cong) simp_all
    moreover have "filter (\<lambda>x. ?f k = ?f x) headers = filter (\<lambda>x. k = x) headers"
      using eq set_eq by (intro filter_cong) simp_all
    ultimately show ?thesis
      using that dy dh set_eq by (simp add: filter_single)
  qed
  have "map ?f ys = map (position ([] @ map fst ys)) (map fst ys)"
    by simp
  also have "\<dots> = [length ([] :: string list)..<length ([] :: string list) + length (map fst ys)]"
    using dk by (intro map_position) auto
  finally have "sorted (map ?f ys)"
    by simp
  with assms(2) same have "sort_key ?f headers = ys"
    by (intro properties_for_sort_key) auto
  then have "range_map (rt\<lparr>mapRangeRank := position (map fst ys)\<rparr>) headers = ys"
    by (simp add: range_map_def)
  then show ?thesis by blast
qed

section \<open>The shape of the encoder's output\<close>

lemma write_headers_concat: "write_headers message kvs = message @ concat (map header_line kvs)"
  by (induction kvs arbitrary: message) (auto simp: header_line_def)

lemma write_encoded_lines76:
  "write_encoded i encoded message
     = message @ concat (map (\<lambda>l. l @ CRLF) (lines76 (drop i encoded)))"
proof (induction i encoded message rule: write_encoded.induct)
  case (1 i encoded message)
  show ?case
  proof (cases "i < length encoded")
    case True
    let ?e = "if i + 76 > length encoded then length encoded else i + 76"
    have line: "take (?e - i) (drop i encoded) = take 76 (drop i encoded)"
      by simp
    have step: "write_encoded i encoded message
        = write_encoded (i + 76) encoded (message @ take 76 (drop i encoded) @ CRLF)"
      using True line by (subst write_encoded.simps) (simp add: Let_def)
    have ih: "write_encoded (i + 76) encoded (message @ take 76 (drop i encoded) @ CRLF)
        = (message @ take 76 (drop i encoded) @ CRLF)
          @ concat (map (\<lambda>l. l @ CRLF) (lines76 (drop (i + 76) encoded)))"
      using "1.IH" [OF True refl] line by simp
    have unfold: "lines76 (drop i encoded)
        = take 76 (drop i encoded) # lines76 (drop (i + 76) encoded)"
      using True by (subst lines76.simps) (simp add: add.commute)
    show ?thesis
      by (simp only: step ih unfold) simp
  next
    case False
    then have "drop i encoded = []" by simp
    then show ?thesis
      using False by (subst write_encoded.simps) (simp add: lines76.simps)
  qed
qed

lemma addAttachment_append:
  "addAttachment rt message att boundary = message @ part_text rt boundary att"
  by (simp add: addAttachment_def part_text_def Let_def write_encoded_lines76)

lemma foldl_addAttachment:
  "foldl (\<lambda>message att. addAttachment rt message att boundary) message atts
     = message @ concat (map (part_text rt boundary) atts)"
proof (induction atts arbitrary: message)
  case Nil
  show ?case by simp
next
  case (Cons a atts)
  show ?case
    by (simp add: Cons.IH) (simp add: addAttachment_append)
qed

lemma message_String_simple:
  "Attachments msg = [] \<Longrightarrow>
   message_String rt msg
     = concat (map header_line (range_map rt (all_headers msg (body_content_type msg))))
       @ CRLF @ Body msg"
  by (simp add: message_String_def all_headers_def write_headers_concat Let_def)

lemma message_String_multipart:
  "Attachments msg \<noteq> [] \<Longrightarrow>
   message_String rt msg
     = concat (map header_line
         (range_map rt (all_headers msg (''multipart/mixed; boundary='' @ make_boundary rt))))
       @ CRLF @ multipart_body rt (make_boundary rt) msg"
  by (simp add: message_String_def all_headers_def write_headers_concat Let_def
        foldl_addAttachment multipart_body_def)

lemma all_headers_eq:
  "all_headers msg ct =
     [(''From'', From msg), (''To'', Join (To msg) '', '')]
     @ (if Cc msg = [] then [] else [(''Cc'', Join (Cc msg) '', '')])
     @ (if Bcc msg = [] then [] else [(''Bcc'', Join (Bcc msg) '', '')])
     @ [(''Subject'', Subject msg), (''MIME-Version'', ''1.0''), (''Content-Type'', ct)]"
  by (simp add: all_headers_def base_headers_def Let_def)

lemma all_headers_distinct: "distinct (map fst (all_headers msg ct))"
  by (simp add: all_headers_eq)

lemma example_headers: "all_headers example_message ct =
   [(''From'', ''a@x.com''), (''To'', ''b@y.com''), (''Subject'', ''Hi''), (''MIME-Version'', ''1.0''), (''Content-Type'', ct)]"
  by (simp add: all_headers_eq example_message_def)

lemma example_order: "range_map example_runtime (all_headers example_message ct) = 
   [(''From'', ''a@x.com''), (''To'', ''b@y.com''), (''Subject'', ''Hi''), (''MIME-Version'', ''1.0''), (''Content-Type'', ct)]"
  unfolding example_headers
  by (simp add: range_map_def example_runtime_def)

lemma from_last_order: "range_map rank_from_last (all_headers example_message ct) = 
   [(''To'', ''b@y.com''), (''Subject'', ''Hi''), (''MIME-Version'', ''1.0''), (''Content-Type'', ct), (''From'', ''a@x.com'')]"
  unfolding example_headers
  by (simp add: range_map_def rank_from_last_def)

lemma example_text: "message_String example_runtime example_message =
   ''From: a@x.com'' @ CRLF @ ''To: b@y.com'' @ CRLF @ ''Subject: Hi'' @ CRLF @ ''MIME-Version: 1.0'' @ CRLF
   @ ''Content-Type: text/plain; charset=utf-8'' @ CRLF @ CRLF @ ''Hello''"
proof -
  have "Attachments example_message = []"
    by (simp add: example_message_def)
  from message_String_simple [OF this, of example_runtime] show ?thesis
    unfolding example_order by (simp add: header_line_def example_message_def body_content_type_def)
qed

lemma from_last_text: "message_String rank_from_last example_message =
   ''To: b@y.com'' @ CRLF @ ''Subject: Hi'' @ CRLF @ ''MIME-Version: 1.0'' @ CRLF
   @ ''Content-Type: text/plain; charset=utf-8'' @ CRLF @ ''From: a@x.com'' @ CRLF @ CRLF @ ''Hello''"
proof -
  have "Attachments example_message = []"
    by (simp add: example_message_def)
  from message_String_simple [OF this, of rank_from_last] show ?thesis
    unfolding from_last_order by (simp add: header_line_def example_message_def body_content_type_def)
qed

lemma EncodeToString_hd:
  "hd (EncodeToString enc (bytes_of_string (c0 # c1 # c2 # cs))) = enc ! (unat (of_nat (of_char c0) :: byte) div 4)"
  by (simp add: bytes_of_string_def)

lemma example_boundary: "make_boundary example_runtime = ''boundary-0''"
  by (simp add: make_boundary_def example_runtime_def FormatInt_def) (simp add: digits.simps)

section \<open>Reading the header block back\<close>

lemma lines_of_nonempty: "lines_of s \<noteq> []"
proof (induction s rule: lines_of.induct)
  case (3 c d cs)
  then show ?case
    by (cases "lines_of (d # cs)") auto
qed simp_all

lemma push_front_append: "ls \<noteq> [] \<Longrightarrow> push_front c (ls @ ms) = push_front c ls @ ms"
  by (cases ls) auto

lemma lines_of_CRLF: "lines_of (a @ CRLF @ b) = lines_of a @ lines_of b"
proof (induction a rule: lines_of.induct)
  case 1
  show ?case by simp
next
  case (2 c)
  show ?case by simp
next
  case (3 c d cs)
  show ?case
  proof (cases "c = CHR 0x0D \<and> d = CHR 0x0A")
    case True
    then show ?thesis using 3 by simp
  next
    case False
    then have ih: "lines_of ((d # cs) @ CRLF @ b) = lines_of (d # cs) @ lines_of b"
      using 3 by blast
    have no: "(c = CHR 0x0D \<and> d = CHR 0x0A) = False"
      using False by simp
    show ?thesis
      using ih by (simp add: no push_front_append lines_of_nonempty)
  qed
qed

lemma lines_of_single: "no_line_break s \<Longrightarrow> lines_of s = [s]"
  by (induction s rule: lines_of.induct) (auto simp: no_line_break_def)




lemma no_line_break_append [simp]:
  "no_line_break (a @ b) = (no_line_break a \<and> no_line_break b)"
  by (auto simp: no_line_break_def)

lemma no_line_break_Nil [simp]: "no_line_break []"
  by (simp add: no_line_break_def)

lemma no_line_break_Cons [simp]:
  "no_line_break (c # s) = (c \<noteq> CHR 0x0D \<and> c \<noteq> CHR 0x0A \<and> no_line_break s)"
  by (auto simp: no_line_break_def)

lemma no_line_break_Join:
  "list_all no_line_break xs \<Longrightarrow> no_line_break sep \<Longrightarrow> no_line_break (Join xs sep)"
  by (induction xs sep rule: Join.induct) auto

lemma digits_chars: "set (digits n) \<subseteq> set ''0123456789''"
proof (induction n rule: digits.induct)
  case (1 n)
  have d: "''0123456789'' ! k \<in> set ''0123456789''" if "k < 10" for k
    using that by (intro nth_mem) simp
  show ?case
  proof (cases "n < 10")
    case True
    then show ?thesis
      using d [of n] by (subst digits.simps) simp
  next
    case False
    have "n mod 10 < 10" by simp
    then show ?thesis
      using False 1 d [of "n mod 10"] by (subst digits.simps) simp
  qed
qed

lemma no_line_break_digits: "no_line_break (digits n)"
  using digits_chars [of n] by (auto simp: no_line_break_def)

lemma no_line_break_boundary: "no_line_break (make_boundary rt)"
  by (simp add: make_boundary_def FormatInt_def no_line_break_digits)

lemma message_String_shape:
  "message_String rt msg
     = concat (map header_line (range_map rt (all_headers msg (content_type_value rt msg))))
       @ CRLF @ after_headers rt msg"
  by (cases "Attachments msg = []")
     (simp_all add: message_String_simple message_String_multipart content_type_value_def
        after_headers_def)

lemma header_line_text: "header_line kv = header_text kv @ CRLF"
  by (simp add: header_line_def header_text_def)

lemma lines_of_headers:
  "\<forall>kv \<in> set hs. no_line_break (header_text kv) \<Longrightarrow>
   lines_of (concat (map header_line hs) @ CHR 0x0D # CHR 0x0A # rest)
     = map header_text hs @ [] # lines_of rest"
proof (induction hs)
  case Nil
  show ?case by simp
next
  case (Cons kv hs)
  have "lines_of (concat (map header_line (kv # hs)) @ CHR 0x0D # CHR 0x0A # rest)
      = lines_of (header_text kv @ CRLF @ (concat (map header_line hs) @ CHR 0x0D # CHR 0x0A # rest))"
    by (simp add: header_line_text)
  also have "\<dots> = lines_of (header_text kv)
      @ lines_of (concat (map header_line hs) @ CHR 0x0D # CHR 0x0A # rest)"
    by (rule lines_of_CRLF)
  also have "\<dots> = header_text kv # map header_text hs @ [] # lines_of rest"
    using Cons by (simp add: lines_of_single)
  finally show ?case by simp
qed

lemma header_text_nonempty: "header_text kv \<noteq> []"
  by (simp add: header_text_def)

lemma header_block_headers:
  "\<forall>kv \<in> set hs. no_line_break (header_text kv) \<Longrightarrow>
   header_block (concat (map header_line hs) @ CHR 0x0D # CHR 0x0A # rest) = map header_text hs"
  by (simp add: header_block_def lines_of_headers takeWhile_append header_text_nonempty
        takeWhile_eq_all_conv [THEN iffD2])


lemma all_headers_single_line:
  "single_line_fields msg \<Longrightarrow> no_line_break ct \<Longrightarrow>
   \<forall>kv \<in> set (all_headers msg ct). no_line_break (header_text kv)"
  by (simp add: all_headers_eq header_text_def single_line_fields_def no_line_break_Join)

lemma content_type_value_single_line: "no_line_break (content_type_value rt msg)"
  using no_line_break_boundary [of rt]
  by (simp add: content_type_value_def body_content_type_def)

lemma header_block_message:
  "single_line_fields msg \<Longrightarrow>
   header_block (message_String rt msg)
     = map header_text (range_map rt (all_headers msg (content_type_value rt msg)))"
  using all_headers_single_line [OF _ content_type_value_single_line, of msg rt]
  by (subst message_String_shape) (simp add: header_block_headers range_map_def)


lemma filter_header_block:
  "single_line_fields msg \<Longrightarrow>
   filter P (header_block (message_String rt msg))
     = map header_text (range_map rt
         (filter (\<lambda>kv. P (header_text kv)) (all_headers msg (content_type_value rt msg))))"
  by (simp add: header_block_message filter_map range_map_def filter_sort comp_def)

lemma cc_injected_text: "message_String example_runtime cc_injected =
   ''From: a@x.com'' @ CRLF @ ''To: b@y.com'' @ CRLF @ ''Subject: Hi'' @ CRLF @ ''Cc: eve@z.com'' @ CRLF
   @ ''MIME-Version: 1.0'' @ CRLF @ ''Content-Type: text/plain; charset=utf-8'' @ CRLF @ CRLF @ ''Hello''"
proof -
  have "Attachments cc_injected = []"
    by (simp add: cc_injected_def example_message_def)
  from message_String_simple [OF this, of example_runtime] show ?thesis
    by (simp add: all_headers_eq range_map_def example_runtime_def header_line_def
          cc_injected_def example_message_def body_content_type_def)
qed


lemma example_message_single_line: "single_line_fields example_message"
  by (simp add: single_line_fields_def example_message_def)

section \<open>The single-part form\<close>




section \<open>The Cc and Bcc headers\<close>

text \<open>
  Claim C6, as stated, fails: a message with no cc address whose subject contains a
  line break followed by \<open>Cc: eve@z.com\<close> is encoded with that \<open>Cc\<close> header line.
\<close>

theorem Cc_header_injected:
  "Cc cc_injected = []
   \<and> filter (is_header ''Cc'') (header_block (message_String example_runtime cc_injected))
       = [''Cc: eve@z.com'']"
  unfolding cc_injected_text
  by (simp add: header_block_def is_header_def) (simp add: cc_injected_def example_message_def)

text \<open>
  Claim C6, amended. For a message whose sender, addresses and subject contain no
  line break: when the cc sequence is empty no line of the header block is a \<open>Cc\<close>
  header, and otherwise exactly one is, with the addresses joined by a comma and a
  space; likewise for bcc and the \<open>Bcc\<close> header. This holds with and without
  attachments and for every order of the header map.
\<close>

theorem Cc_Bcc_headers:
  assumes "single_line_fields msg"
  shows "filter (is_header ''Cc'') (header_block (message_String rt msg))
           = (if Cc msg = [] then [] else [''Cc: '' @ Join (Cc msg) '', ''])
       \<and> filter (is_header ''Bcc'') (header_block (message_String rt msg))
           = (if Bcc msg = [] then [] else [''Bcc: '' @ Join (Bcc msg) '', ''])"
  by (simp add: filter_header_block [OF assms] all_headers_eq is_header_def header_text_def
        range_map_def)

theorem Cc_Bcc_headers_witness:
  "filter (is_header ''Cc'') (header_block (message_String example_runtime example_message)) = []
   \<and> filter (is_header ''Bcc'') (header_block (message_String example_runtime example_message)) = []
   \<and> filter (is_header ''Cc'')
        (header_block (message_String rank_from_last
           (example_message\<lparr>Cc := [''c@z.com'', ''d@z.com''], Bcc := [''e@z.com'']\<rparr>)))
      = [''Cc: c@z.com, d@z.com'']
   \<and> filter (is_header ''Bcc'')
        (header_block (message_String rank_from_last
           (example_message\<lparr>Cc := [''c@z.com'', ''d@z.com''], Bcc := [''e@z.com'']\<rparr>)))
      = [''Bcc: e@z.com'']"
proof -
  have a: "Cc example_message = [] \<and> Bcc example_message = []"
    by (simp add: example_message_def)
  have b: "single_line_fields (example_message\<lparr>Cc := [''c@z.com'', ''d@z.com''], Bcc := [''e@z.com'']\<rparr>)"
    by (simp add: single_line_fields_def example_message_def)
  show ?thesis
    using Cc_Bcc_headers [OF example_message_single_line, of example_runtime]
          Cc_Bcc_headers [OF b, of rank_from_last] a
    by simp
qed

section \<open>Base64\<close>

lemma index_of_nth: "distinct xs \<Longrightarrow> i < length xs \<Longrightarrow> index_of xs (xs ! i) = Some i"
proof (induction xs arbitrary: i)
  case Nil
  then show ?case by simp
next
  case (Cons x xs)
  show ?case
  proof (cases i)
    case 0
    then show ?thesis by simp
  next
    case (Suc j)
    then have "xs ! j \<in> set xs" using Cons.prems by simp
    then have "x \<noteq> xs ! j" using Cons.prems by auto
    then show ?thesis using Suc Cons by simp
  qed
qed

lemma StdEncoding_alphabet: "alphabet StdEncoding"
  by (simp add: alphabet_def StdEncoding_def)

lemma URLEncoding_alphabet: "alphabet URLEncoding"
  by (simp add: alphabet_def URLEncoding_def)

lemma StdEncoding_length: "length StdEncoding = 64"
  using StdEncoding_alphabet by (simp add: alphabet_def)

lemma alphabet_no_pad: "alphabet enc \<Longrightarrow> i < 64 \<Longrightarrow> enc ! i \<noteq> CHR ''=''"
  by (metis alphabet_def nth_mem)

lemma alphabet_index: "alphabet enc \<Longrightarrow> i < 64 \<Longrightarrow> index_of enc (enc ! i) = Some i"
  by (simp add: index_of_nth alphabet_def)

lemma byte_bound: "unat (b :: byte) < 256"
  using unsigned_less [of b, where 'a = nat] by simp

lemma sextets:
  fixes b0 b1 b2 :: byte
  shows "unat b0 div 4 < 64" "unat b0 mod 4 * 16 + unat b1 div 16 < 64" "unat b0 mod 4 * 16 < 64"
    "unat b1 mod 16 * 4 + unat b2 div 64 < 64" "unat b1 mod 16 * 4 < 64" "unat b2 mod 64 < 64"
proof -
  have b: "unat b0 < 256" "unat b1 < 256" "unat b2 < 256"
    by (rule byte_bound)+
  show "unat b0 div 4 < 64" using b by simp
  have "unat b0 mod 4 < 4" "unat b1 div 16 < 16" "unat b1 mod 16 < 16" "unat b2 div 64 < 4"
    using b by simp_all
  then show "unat b0 mod 4 * 16 + unat b1 div 16 < 64" "unat b0 mod 4 * 16 < 64"
    "unat b1 mod 16 * 4 + unat b2 div 64 < 64" "unat b1 mod 16 * 4 < 64"
    by linarith+
  show "unat b2 mod 64 < 64" by simp
qed

lemma byte_first:
  fixes b0 b1 :: byte
  shows "(of_nat (unat b0 div 4 * 4 + (unat b0 mod 4 * 16 + unat b1 div 16) div 16) :: byte) = b0"
proof -
  have "unat b1 div 16 < 16" using byte_bound [of b1] by simp
  then have "(unat b0 mod 4 * 16 + unat b1 div 16) div 16 = unat b0 mod 4" by simp
  then have "unat b0 div 4 * 4 + (unat b0 mod 4 * 16 + unat b1 div 16) div 16 = unat b0" by simp
  then show ?thesis by (simp only: of_nat_unat) simp
qed

lemma byte_first_pad:
  fixes b0 :: byte
  shows "(of_nat (unat b0 div 4 * 4 + (unat b0 mod 4 * 16) div 16) :: byte) = b0"
proof -
  have "unat b0 div 4 * 4 + (unat b0 mod 4 * 16) div 16 = unat b0" by simp
  then show ?thesis by (simp only: of_nat_unat) simp
qed

lemma byte_second:
  fixes b0 b1 b2 :: byte
  shows "(of_nat ((unat b0 mod 4 * 16 + unat b1 div 16) mod 16 * 16
            + (unat b1 mod 16 * 4 + unat b2 div 64) div 4) :: byte) = b1"
proof -
  have "unat b1 div 16 < 16" "unat b2 div 64 < 4"
    using byte_bound [of b1] byte_bound [of b2] by simp_all
  then have "(unat b0 mod 4 * 16 + unat b1 div 16) mod 16 = unat b1 div 16"
    "(unat b1 mod 16 * 4 + unat b2 div 64) div 4 = unat b1 mod 16"
    by simp_all
  then have "(unat b0 mod 4 * 16 + unat b1 div 16) mod 16 * 16
            + (unat b1 mod 16 * 4 + unat b2 div 64) div 4 = unat b1"
    by simp
  then show ?thesis by (simp only: of_nat_unat) simp
qed

lemma byte_second_pad:
  fixes b0 b1 :: byte
  shows "(of_nat ((unat b0 mod 4 * 16 + unat b1 div 16) mod 16 * 16
            + (unat b1 mod 16 * 4) div 4) :: byte) = b1"
proof -
  have "unat b1 div 16 < 16"
    using byte_bound [of b1] by simp
  then have "(unat b0 mod 4 * 16 + unat b1 div 16) mod 16 = unat b1 div 16"
    by simp
  then have "(unat b0 mod 4 * 16 + unat b1 div 16) mod 16 * 16 + (unat b1 mod 16 * 4) div 4 = unat b1"
    by simp
  then show ?thesis by (simp only: of_nat_unat) simp
qed

lemma byte_third:
  fixes b1 b2 :: byte
  shows "(of_nat ((unat b1 mod 16 * 4 + unat b2 div 64) mod 4 * 64 + unat b2 mod 64) :: byte) = b2"
proof -
  have "unat b2 div 64 < 4"
    using byte_bound [of b2] by simp
  then have "(unat b1 mod 16 * 4 + unat b2 div 64) mod 4 = unat b2 div 64"
    by simp
  then have "(unat b1 mod 16 * 4 + unat b2 div 64) mod 4 * 64 + unat b2 mod 64 = unat b2"
    by simp
  then show ?thesis by (simp only: of_nat_unat) simp
qed

lemma decode_quad_encode:
  "alphabet enc \<Longrightarrow>
   decode_quad enc (enc ! (unat b0 div 4)) (enc ! (unat b0 mod 4 * 16 + unat b1 div 16))
     (enc ! (unat b1 mod 16 * 4 + unat b2 div 64)) (enc ! (unat b2 mod 64))
   = Some [b0, b1, b2]"
  unfolding decode_quad_def
  by (simp only: alphabet_index sextets prod.case option.case byte_first byte_second byte_third)

lemma decode_pad1_encode:
  "alphabet enc \<Longrightarrow>
   decode_pad1 enc (enc ! (unat b0 div 4)) (enc ! (unat b0 mod 4 * 16 + unat b1 div 16))
     (enc ! (unat b1 mod 16 * 4))
   = Some [b0, b1]"
  unfolding decode_pad1_def
  by (simp only: alphabet_index sextets prod.case option.case byte_first byte_second_pad)

lemma decode_pad2_encode:
  "alphabet enc \<Longrightarrow>
   decode_pad2 enc (enc ! (unat b0 div 4)) (enc ! (unat b0 mod 4 * 16)) = Some [b0]"
  unfolding decode_pad2_def
  by (simp only: alphabet_index sextets prod.case option.case byte_first_pad)

lemma Decode_Encode_alphabet:
  "alphabet enc \<Longrightarrow> DecodeString enc (EncodeToString enc bs) = Some bs"
proof (induction enc bs rule: EncodeToString.induct)
  case (1 enc)
  show ?case by simp
next
  case (2 enc b0)
  then show ?case
    by (simp add: decode_pad2_encode)
next
  case (3 enc b0 b1)
  then show ?case
    by (simp add: decode_pad1_encode sextets alphabet_no_pad)
next
  case (4 enc b0 b1 b2 bs)
  then show ?case
    by (simp add: decode_quad_encode sextets alphabet_no_pad)
qed

lemma Decode_Encode: "DecodeString StdEncoding (EncodeToString StdEncoding bs) = Some bs"
  by (rule Decode_Encode_alphabet [OF StdEncoding_alphabet])

lemma string_of_bytes_of_string: "string_of_bytes (bytes_of_string s) = s"
proof -
  have "char_of (unat (of_nat (of_char c) :: byte)) = c" for c
    by (simp add: unat_of_nat)
  then show ?thesis
    by (simp add: string_of_bytes_def bytes_of_string_def comp_def)
qed

text \<open>
  The string that \<open>createMessage\<close> returns is the base64 of the text that the
  properties below are about: decoding it gives that text back.
\<close>

lemma Raw_decodes:
  "createMessage rt msg = Inr gmailMsg \<Longrightarrow>
   map_option string_of_bytes (DecodeString URLEncoding (Raw gmailMsg)) = Some (message_String rt msg)"
  by (auto simp: createMessage_def Decode_Encode_alphabet [OF URLEncoding_alphabet]
        string_of_bytes_of_string)

section \<open>Determinism\<close>

lemma createMessage_inj:
  "createMessage rt1 msg1 = createMessage rt2 msg2 \<Longrightarrow> message_String rt1 msg1 = message_String rt2 msg2"
proof -
  assume same: "createMessage rt1 msg1 = createMessage rt2 msg2"
  obtain g where g: "createMessage rt1 msg1 = Inr g"
    by (simp add: createMessage_def)
  from Raw_decodes [OF g] Raw_decodes [OF g [unfolded same]] show ?thesis
    by simp
qed

lemma entries_by_keys:
  assumes "distinct (map fst h)" and "mset xs = mset h"
  shows "xs = map (\<lambda>k. (k, the (map_of h k))) (map fst xs)"
proof -
  have "(fst x, the (map_of h (fst x))) = x" if "x \<in> set xs" for x
  proof -
    have "set xs = set h"
      using assms(2) by (rule mset_eq_setD)
    then have "(fst x, snd x) \<in> set h"
      using that by simp
    with assms(1) have "map_of h (fst x) = Some (snd x)"
      by (rule map_of_is_SomeI)
    then show ?thesis by simp
  qed
  then have "map (\<lambda>x. (fst x, the (map_of h (fst x)))) xs = xs"
    by (intro map_idI)
  then show ?thesis
    by (simp add: comp_def)
qed

lemma same_keys_same_entries:
  assumes "distinct (map fst h)" and "map fst (range_map rt1 h) = map fst (range_map rt2 h)"
  shows "range_map rt1 h = range_map rt2 h"
proof -
  have "mset (range_map rt1 h) = mset h" "mset (range_map rt2 h) = mset h"
    by (simp_all add: range_map_def)
  from entries_by_keys [OF assms(1) this(1)] entries_by_keys [OF assms(1) this(2)] assms(2)
  show ?thesis by metis
qed

lemma header_key_start:
  assumes "k \<in> set [''From'', ''To'', ''Cc'', ''Bcc'', ''Subject'', ''MIME-Version'', ''Content-Type'']"
    and "k' \<in> set [''From'', ''To'', ''Cc'', ''Bcc'', ''Subject'', ''MIME-Version'', ''Content-Type'']"
    and "k @ x = k' @ y"
  shows "k = k'"
proof -
  let ?K = "[''From'', ''To'', ''Cc'', ''Bcc'', ''Subject'', ''MIME-Version'', ''Content-Type'']"
  have "distinct (map (take 2) ?K)"
    by simp
  then have inj: "inj_on (take 2) (set ?K)"
    by (simp only: distinct_map)
  have long: "\<forall>k \<in> set ?K. 2 \<le> length k"
    by simp
  have "take 2 (k @ x) = take 2 (k' @ y)"
    using assms(3) by simp
  moreover have "take 2 (k @ x) = take 2 k" "take 2 (k' @ y) = take 2 k'"
    using long assms(1) assms(2) by (simp_all only: take_append) auto
  ultimately have "take 2 k = take 2 k'"
    by simp
  with inj show ?thesis
    using assms(1) assms(2) by (rule inj_onD)
qed

lemma header_line_start:
  assumes "header_line (k, v) @ a = header_line (k', v') @ b"
    and "k \<in> set [''From'', ''To'', ''Cc'', ''Bcc'', ''Subject'', ''MIME-Version'', ''Content-Type'']"
    and "k' \<in> set [''From'', ''To'', ''Cc'', ''Bcc'', ''Subject'', ''MIME-Version'', ''Content-Type'']"
  shows "k = k'"
proof -
  have "k @ ('': '' @ v @ CRLF @ a) = k' @ ('': '' @ v' @ CRLF @ b)"
    using assms(1) by (simp add: header_line_def)
  with assms(2) assms(3) show ?thesis
    by (rule header_key_start)
qed

lemma header_lines_order:
  assumes start: "\<And>k k' v v' a b. k \<in> K \<Longrightarrow> k' \<in> K \<Longrightarrow>
      header_line (k, v) @ a = header_line (k', v') @ b \<Longrightarrow> k = k'"
    and "distinct (map fst xs)" and "mset ys = mset xs" and "fst ` set xs \<subseteq> K"
    and "concat (map header_line xs) @ r = concat (map header_line ys) @ r'"
  shows "map fst xs = map fst ys"
  using assms(2-)
proof (induction xs arbitrary: ys)
  case Nil
  then show ?case by simp
next
  case (Cons kv xs)
  obtain kv' ys' where ys: "ys = kv' # ys'"
    using Cons.prems(2) by (cases ys) auto
  have "kv' \<in> set ys"
    by (simp add: ys)
  moreover have "set ys = set (kv # xs)"
    using Cons.prems(2) by (rule mset_eq_setD)
  ultimately have mem: "kv' \<in> set (kv # xs)"
    by (simp only:)
  have "fst kv \<in> K"
    using Cons.prems(3) by simp
  moreover have "fst kv' \<in> K"
    using Cons.prems(3) mem by blast
  moreover have "header_line (fst kv, snd kv) @ (concat (map header_line xs) @ r)
      = header_line (fst kv', snd kv') @ (concat (map header_line ys') @ r')"
    using Cons.prems(4) by (simp add: ys)
  ultimately have keys: "fst kv = fst kv'"
    by (rule start)
  have "inj_on fst (set (kv # xs))"
    using Cons.prems(1) by (simp only: distinct_map)
  then have kv: "kv = kv'"
    using keys by (rule inj_onD) (use mem in simp_all)
  have "distinct (map fst xs)"
    using Cons.prems(1) by simp
  moreover have "mset ys' = mset xs"
    using Cons.prems(2) ys kv by simp
  moreover have "fst ` set xs \<subseteq> K"
    using Cons.prems(3) by simp
  moreover have "concat (map header_line xs) @ r = concat (map header_line ys') @ r'"
    using Cons.prems(4) ys kv by simp
  ultimately have "map fst xs = map fst ys'"
    by (rule Cons.IH)
  then show ?case
    using ys kv by simp
qed

lemma header_map_keys:
  "fst ` set (header_map rt msg)
     \<subseteq> set [''From'', ''To'', ''Cc'', ''Bcc'', ''Subject'', ''MIME-Version'', ''Content-Type'']"
  by (simp add: header_map_def all_headers_eq)

lemma message_String_header_map:
  "message_String rt msg
     = concat (map header_line (range_map rt (header_map rt msg))) @ CRLF @ after_headers rt msg"
  unfolding header_map_def by (rule message_String_shape)

lemma header_map_same_clock:
  assumes "Attachments msg \<noteq> [] \<longrightarrow> timeNowUnixNano rt1 = timeNowUnixNano rt2"
  shows "header_map rt1 msg = header_map rt2 msg"
  using assms by (cases "Attachments msg = []")
    (simp_all add: header_map_def content_type_value_def make_boundary_def)

lemma part_text_same_type:
  assumes "resolveMimeType rt1 att = resolveMimeType rt2 att"
  shows "part_text rt1 b att = part_text rt2 b att"
  using assms by (simp only: part_text_def addAttachment_def)

lemma after_headers_same:
  assumes "Attachments msg \<noteq> [] \<longrightarrow> timeNowUnixNano rt1 = timeNowUnixNano rt2"
    and "map (resolveMimeType rt1) (Attachments msg) = map (resolveMimeType rt2) (Attachments msg)"
  shows "after_headers rt1 msg = after_headers rt2 msg"
proof (cases "Attachments msg = []")
  case True
  then show ?thesis by (simp add: after_headers_def)
next
  case False
  then have b: "make_boundary rt1 = make_boundary rt2"
    using assms(1) by (simp add: make_boundary_def)
  have types: "\<forall>att \<in> set (Attachments msg). resolveMimeType rt1 att = resolveMimeType rt2 att"
    using assms(2) by (simp only: map_eq_conv)
  have parts: "map (part_text rt1 (make_boundary rt2)) (Attachments msg)
      = map (part_text rt2 (make_boundary rt2)) (Attachments msg)"
  proof (rule map_cong [OF refl])
    fix att
    assume "att \<in> set (Attachments msg)"
    with types have "resolveMimeType rt1 att = resolveMimeType rt2 att"
      by blast
    then show "part_text rt1 (make_boundary rt2) att = part_text rt2 (make_boundary rt2) att"
      by (rule part_text_same_type)
  qed
  show ?thesis
    by (simp only: after_headers_def multipart_body_def b parts False if_False)
qed

lemma two_attachments_headers: "all_headers two_attachments ct =
   [(''From'', ''a@x.com''), (''To'', ''b@y.com''), (''Subject'', ''Hi''), (''MIME-Version'', ''1.0''), (''Content-Type'', ct)]"
  by (simp add: all_headers_eq two_attachments_def example_message_def)

lemma clock_one_boundary: "make_boundary clock_one = ''boundary-1''"
  by (simp add: make_boundary_def clock_one_def FormatInt_def) (simp add: digits.simps)

text \<open>
  Claim C1, as stated, fails, in two ways. Two calls on the same message, in the same
  process, give different strings when the runtime visits the header map in a
  different order, whatever the message; and when the message has attachments they
  give different strings when the two calls read different values of the clock,
  because the boundary token is made from the clock.
\<close>

theorem createMessage_not_deterministic:
  "message_String example_runtime example_message \<noteq> message_String rank_from_last example_message
   \<and> createMessage example_runtime example_message \<noteq> createMessage rank_from_last example_message
   \<and> message_String example_runtime two_attachments \<noteq> message_String clock_one two_attachments
   \<and> createMessage example_runtime two_attachments \<noteq> createMessage clock_one two_attachments"
proof -
  have "hd (EncodeToString URLEncoding (bytes_of_string (message_String example_runtime example_message))) = CHR ''R''"
    unfolding example_text by (simp add: EncodeToString_hd URLEncoding_def)
  moreover have "hd (EncodeToString URLEncoding (bytes_of_string (message_String rank_from_last example_message))) = CHR ''V''"
    unfolding from_last_text by (simp add: EncodeToString_hd URLEncoding_def)
  ultimately have "EncodeToString URLEncoding (bytes_of_string (message_String example_runtime example_message))
     \<noteq> EncodeToString URLEncoding (bytes_of_string (message_String rank_from_last example_message))"
    by auto
  then have order: "message_String example_runtime example_message \<noteq> message_String rank_from_last example_message
      \<and> createMessage example_runtime example_message \<noteq> createMessage rank_from_last example_message"
    by (auto simp: createMessage_def example_text from_last_text)
  have atts: "Attachments two_attachments \<noteq> []"
    by (simp add: two_attachments_def)
  have clock: "message_String example_runtime two_attachments \<noteq> message_String clock_one two_attachments"
    unfolding message_String_multipart [OF atts] two_attachments_headers example_boundary
      clock_one_boundary
    by (simp add: range_map_def example_runtime_def clock_one_def header_line_def)
  then have "createMessage example_runtime two_attachments \<noteq> createMessage clock_one two_attachments"
    using createMessage_inj by blast
  with order clock show ?thesis
    by blast
qed

text \<open>
  Claim C1, amended. Take two calls on the same message that resolve the content type
  of each of its attachments to the same value (as two calls in one process do) and
  that, when the message has attachments, read the same value of the clock. Their
  results are identical exactly when the two calls visit the keys of the header map
  in the same order; this holds for the text written and for the string returned.
\<close>

theorem createMessage_same_visiting_order:
  assumes "Attachments msg \<noteq> [] \<longrightarrow> timeNowUnixNano rt1 = timeNowUnixNano rt2"
    and "map (resolveMimeType rt1) (Attachments msg) = map (resolveMimeType rt2) (Attachments msg)"
  shows "(message_String rt1 msg = message_String rt2 msg)
           = (visiting_order rt1 msg = visiting_order rt2 msg)
       \<and> (createMessage rt1 msg = createMessage rt2 msg)
           = (visiting_order rt1 msg = visiting_order rt2 msg)"
proof -
  let ?h = "header_map rt1 msg"
  have h: "header_map rt2 msg = ?h"
    using header_map_same_clock [OF assms(1)] by simp
  have rest: "after_headers rt2 msg = after_headers rt1 msg"
    using after_headers_same [OF assms] by simp
  have d: "distinct (map fst ?h)"
    by (simp add: header_map_def all_headers_distinct)
  have text1: "message_String rt1 msg
      = concat (map header_line (range_map rt1 ?h)) @ CRLF @ after_headers rt1 msg"
    by (rule message_String_header_map)
  have text2: "message_String rt2 msg
      = concat (map header_line (range_map rt2 ?h)) @ CRLF @ after_headers rt1 msg"
    using message_String_header_map [of rt2 msg] by (simp only: h rest)
  have forward: "message_String rt1 msg = message_String rt2 msg"
    if "visiting_order rt1 msg = visiting_order rt2 msg"
  proof -
    have "map fst (range_map rt1 ?h) = map fst (range_map rt2 ?h)"
      using that by (simp only: visiting_order_def h)
    with d have "range_map rt1 ?h = range_map rt2 ?h"
      by (rule same_keys_same_entries)
    then show ?thesis
      by (simp only: text1 text2)
  qed
  have backward: "visiting_order rt1 msg = visiting_order rt2 msg"
    if "message_String rt1 msg = message_String rt2 msg"
  proof -
    let ?K = "set [''From'', ''To'', ''Cc'', ''Bcc'', ''Subject'', ''MIME-Version'', ''Content-Type'']"
    have "k = k'" if "k \<in> ?K" "k' \<in> ?K" "header_line (k, v) @ a = header_line (k', v') @ b"
      for k k' v v' a b
      using that(3) that(1) that(2) by (rule header_line_start)
    moreover have "distinct (map fst (range_map rt1 ?h))"
    proof -
      have "mset (map fst (range_map rt1 ?h)) = mset (map fst ?h)"
        by (simp add: range_map_def)
      then have "distinct (map fst (range_map rt1 ?h)) = distinct (map fst ?h)"
        by (rule mset_eq_imp_distinct_iff)
      then show ?thesis
        using d by simp
    qed
    moreover have "mset (range_map rt2 ?h) = mset (range_map rt1 ?h)"
      by (simp add: range_map_def)
    moreover have "fst ` set (range_map rt1 ?h) \<subseteq> ?K"
      using header_map_keys [of rt1 msg] by (simp only: range_map_def set_sort)
    moreover have "concat (map header_line (range_map rt1 ?h)) @ (CRLF @ after_headers rt1 msg)
        = concat (map header_line (range_map rt2 ?h)) @ (CRLF @ after_headers rt1 msg)"
      using that by (simp only: text1 text2)
    ultimately have "map fst (range_map rt1 ?h) = map fst (range_map rt2 ?h)"
      by (rule header_lines_order)
    then show ?thesis
      by (simp only: visiting_order_def h)
  qed
  have texts: "(message_String rt1 msg = message_String rt2 msg)
      = (visiting_order rt1 msg = visiting_order rt2 msg)"
    using forward backward by blast
  moreover have "(createMessage rt1 msg = createMessage rt2 msg)
      = (message_String rt1 msg = message_String rt2 msg)"
    using createMessage_inj [of rt1 msg rt2 msg] by (auto simp: createMessage_def)
  ultimately show ?thesis
    by simp
qed

theorem createMessage_same_visiting_order_witness:
  "mapRangeRank example_runtime ''Content-Type'' \<noteq> mapRangeRank content_type_last ''Content-Type''
   \<and> createMessage example_runtime two_attachments = createMessage content_type_last two_attachments
   \<and> timeNowUnixNano example_runtime \<noteq> timeNowUnixNano clock_one
   \<and> createMessage example_runtime example_message = createMessage clock_one example_message
   \<and> visiting_order example_runtime example_message \<noteq> visiting_order rank_from_last example_message
   \<and> createMessage example_runtime example_message \<noteq> createMessage rank_from_last example_message"
proof -
  have ranks: "mapRangeRank example_runtime ''Content-Type'' \<noteq> mapRangeRank content_type_last ''Content-Type''"
    by (simp add: example_runtime_def content_type_last_def)
  have clocks: "timeNowUnixNano example_runtime \<noteq> timeNowUnixNano clock_one"
    by (simp add: example_runtime_def clock_one_def)
  have clock: "Attachments two_attachments \<noteq> []
      \<longrightarrow> timeNowUnixNano example_runtime = timeNowUnixNano content_type_last"
    by (simp add: example_runtime_def content_type_last_def)
  have types: "map (resolveMimeType example_runtime) (Attachments two_attachments)
      = map (resolveMimeType content_type_last) (Attachments two_attachments)"
    by (simp add: two_attachments_def resolveMimeType_def getContentType_def Ext_def ToLower_def
          lower_byte_def IsPathSeparator_def example_runtime_def content_type_last_def)
  have order: "visiting_order example_runtime two_attachments
      = visiting_order content_type_last two_attachments"
    by (simp add: visiting_order_def header_map_def two_attachments_headers range_map_def
          example_runtime_def content_type_last_def)
  have a: "createMessage example_runtime two_attachments = createMessage content_type_last two_attachments"
    using createMessage_same_visiting_order [OF clock types] order by simp
  have none: "Attachments example_message = []"
    by (simp add: example_message_def)
  have clock2: "Attachments example_message \<noteq> []
      \<longrightarrow> timeNowUnixNano example_runtime = timeNowUnixNano clock_one"
    using none by simp
  have types2: "map (resolveMimeType example_runtime) (Attachments example_message)
      = map (resolveMimeType clock_one) (Attachments example_message)"
    using none by simp
  have order2: "visiting_order example_runtime example_message = visiting_order clock_one example_message"
    using none
    by (simp add: visiting_order_def header_map_def content_type_value_def range_map_def
          example_runtime_def clock_one_def)
  have b: "createMessage example_runtime example_message = createMessage clock_one example_message"
    using createMessage_same_visiting_order [OF clock2 types2] order2 by simp
  have clock3: "Attachments example_message \<noteq> []
      \<longrightarrow> timeNowUnixNano example_runtime = timeNowUnixNano rank_from_last"
    using none by simp
  have types3: "map (resolveMimeType example_runtime) (Attachments example_message)
      = map (resolveMimeType rank_from_last) (Attachments example_message)"
    using none by simp
  have order3: "visiting_order example_runtime example_message
      \<noteq> visiting_order rank_from_last example_message"
    by (simp add: visiting_order_def header_map_def example_order from_last_order)
  have c: "createMessage example_runtime example_message \<noteq> createMessage rank_from_last example_message"
    using createMessage_same_visiting_order [OF clock3 types3] order3 by simp
  show ?thesis
    using ranks clocks a b c order3 by simp
qed

section \<open>The attachment parts\<close>

lemma lines76_concat: "concat (lines76 s) = s"
proof (induction s rule: lines76.induct)
  case (1 s)
  show ?case
  proof (cases "s = []")
    case True
    then show ?thesis by (subst lines76.simps) simp
  next
    case False
    then have "concat (lines76 s) = take 76 s @ concat (lines76 (drop 76 s))"
      by (subst lines76.simps) simp
    then show ?thesis
      using 1 False by simp
  qed
qed

lemma lines76_length: "l \<in> set (lines76 s) \<Longrightarrow> length l \<le> 76 \<and> l \<noteq> [] \<and> set l \<subseteq> set s"
proof (induction s rule: lines76.induct)
  case (1 s)
  show ?case
  proof (cases "s = []")
    case True
    then show ?thesis using "1.prems" by (subst (asm) lines76.simps) simp
  next
    case False
    then have "l = take 76 s \<or> l \<in> set (lines76 (drop 76 s))"
      using "1.prems" by (subst (asm) lines76.simps) simp
    then show ?thesis
    proof
      assume "l = take 76 s"
      then show ?thesis using False by (auto dest: in_set_takeD)
    next
      assume "l \<in> set (lines76 (drop 76 s))"
      then have "length l \<le> 76 \<and> l \<noteq> [] \<and> set l \<subseteq> set (drop 76 s)"
        using "1.IH" False by blast
      then show ?thesis by (auto dest: in_set_dropD)
    qed
  qed
qed

lemma lines_of_lines:
  "\<forall>l \<in> set ls. no_line_break l \<Longrightarrow>
   lines_of (concat (map (\<lambda>l. l @ CRLF) ls) @ rest) = ls @ lines_of rest"
proof (induction ls)
  case Nil
  show ?case by simp
next
  case (Cons l ls)
  have "lines_of (concat (map (\<lambda>l. l @ CRLF) (l # ls)) @ rest)
      = lines_of (l @ CRLF @ (concat (map (\<lambda>l. l @ CRLF) ls) @ rest))"
    by simp
  also have "\<dots> = lines_of l @ lines_of (concat (map (\<lambda>l. l @ CRLF) ls) @ rest)"
    by (rule lines_of_CRLF)
  also have "\<dots> = (l # ls) @ lines_of rest"
    using Cons by (simp add: lines_of_single)
  finally show ?case .
qed

lemma part_text_lines:
  "part_text rt b att = concat (map (\<lambda>l. l @ CRLF) (delimiter b # part_lines rt att))"
  by (simp add: part_text_def addAttachment_def write_encoded_lines76 part_lines_def
        delimiter_def Let_def)

lemma concat_parts:
  "concat (map (part_text rt b) atts)
     = concat (map (\<lambda>l. l @ CRLF) (concat (map (\<lambda>a. delimiter b # part_lines rt a) atts)))"
  by (induction atts) (simp_all add: part_text_lines)

lemma multipart_body_lines:
  "multipart_body rt b msg
     = concat (map (\<lambda>l. l @ CRLF) [delimiter b, ''Content-Type: '' @ body_content_type msg, []])
       @ Body msg @ CRLF @ CRLF
       @ concat (map (\<lambda>l. l @ CRLF)
           (concat (map (\<lambda>a. delimiter b # part_lines rt a) (Attachments msg))
            @ [close_delimiter b]))
       @ []"
  by (simp add: multipart_body_def concat_parts delimiter_def close_delimiter_def)

lemma no_line_break_getContentType: "no_line_break (getContentType rt f)"
  by (simp add: getContentType_def Let_def)

lemma no_line_break_resolveMimeType:
  "no_line_break (MimeType att) \<Longrightarrow> no_line_break (resolveMimeType rt att)"
  by (simp add: resolveMimeType_def no_line_break_getContentType)

lemma StdEncoding_output: "set (EncodeToString StdEncoding bs) \<subseteq> insert CHR ''='' (set StdEncoding)"
proof (induction StdEncoding bs rule: EncodeToString.induct)
  case 1
  show ?case by simp
next
  case (2 b0)
  show ?case
    by (simp add: StdEncoding_length sextets)
next
  case (3 b0 b1)
  show ?case
    by (simp add: StdEncoding_length sextets)
next
  case (4 b0 b1 b2 bs)
  then show ?case
    by (auto simp: StdEncoding_length sextets)
qed

lemma StdEncoding_plain:
  "CHR 0x0D \<notin> insert CHR ''='' (set StdEncoding) \<and> CHR 0x0A \<notin> insert CHR ''='' (set StdEncoding)
   \<and> CHR ''-'' \<notin> insert CHR ''='' (set StdEncoding)"
  by (simp add: StdEncoding_def)

lemma dash_prefix: "prefix (delimiter b) l \<Longrightarrow> CHR ''-'' \<in> set l"
  by (auto simp: delimiter_def prefix_def)

lemma encoded_line:
  assumes "l \<in> set (lines76 (EncodeToString StdEncoding bs))"
  shows "no_line_break l \<and> length l \<le> 76 \<and> \<not> prefix (delimiter b) l"
proof -
  have l: "length l \<le> 76 \<and> l \<noteq> [] \<and> set l \<subseteq> set (EncodeToString StdEncoding bs)"
    using assms by (rule lines76_length)
  then have sub: "set l \<subseteq> insert CHR ''='' (set StdEncoding)"
    using StdEncoding_output [of bs] by blast
  then have "CHR 0x0D \<notin> set l" "CHR 0x0A \<notin> set l" "CHR ''-'' \<notin> set l"
    using StdEncoding_plain by blast+
  then show ?thesis
    using l dash_prefix [of b l] by (auto simp: no_line_break_def)
qed

lemma part_lines_single:
  assumes "no_line_break (Filename att)" and "no_line_break (MimeType att)"
  shows "\<forall>l \<in> set (part_lines rt att). no_line_break l"
  using assms encoded_line [of _ "Content att"]
  by (auto simp: part_lines_def no_line_break_resolveMimeType)

lemma part_lines_clear:
  "\<forall>l \<in> set (part_lines rt att). \<not> prefix (delimiter b) l"
  using encoded_line [of _ "Content att" b]
  by (auto simp: part_lines_def delimiter_def)

lemma part_headers_part_lines:
  "part_headers (part_lines rt att)
     = [''Content-Type: '' @ resolveMimeType rt att @ ''; name='' @ [dquote] @ Filename att @ [dquote],
        ''Content-Transfer-Encoding: base64'',
        ''Content-Disposition: attachment; filename='' @ [dquote] @ Filename att @ [dquote]]"
  by (simp add: part_headers_def part_lines_def)

lemma part_content_part_lines:
  "part_content (part_lines rt att) = lines76 (EncodeToString StdEncoding (Content att)) @ [[]]"
  by (simp add: part_content_def part_lines_def)

lemma is_attachment_part_lines: "is_attachment (part_lines rt att)"
  by (simp add: is_attachment_def part_headers_part_lines)

lemma part_lines_decode:
  "DecodeString StdEncoding (concat (part_content (part_lines rt att))) = Some (Content att)"
  by (simp add: part_content_part_lines lines76_concat Decode_Encode)

lemma part_lines_length: "l \<in> set (part_content (part_lines rt att)) \<Longrightarrow> length l \<le> 76"
  using encoded_line [of l "Content att"] by (auto simp: part_content_part_lines)

lemma body_lines_headers:
  "\<forall>kv \<in> set hs. no_line_break (header_text kv) \<Longrightarrow>
   body_lines (concat (map header_line hs) @ CHR 0x0D # CHR 0x0A # rest) = lines_of rest"
  by (simp add: body_lines_def lines_of_headers dropWhile_append header_text_nonempty)

lemma body_lines_message:
  "single_line_fields msg \<Longrightarrow> body_lines (message_String rt msg) = lines_of (after_headers rt msg)"
  using all_headers_single_line [OF _ content_type_value_single_line, of msg rt]
  by (subst message_String_shape) (simp add: body_lines_headers range_map_def)

lemma lines_of_multipart_body:
  assumes "\<forall>a \<in> set (Attachments msg). \<forall>l \<in> set (part_lines rt a). no_line_break l"
    and "no_line_break b"
  shows "lines_of (multipart_body rt b msg)
     = [delimiter b, ''Content-Type: '' @ body_content_type msg, []]
       @ lines_of (Body msg) @ [[]]
       @ concat (map (\<lambda>a. delimiter b # part_lines rt a) (Attachments msg))
       @ [close_delimiter b, []]"
proof -
  let ?head = "[delimiter b, ''Content-Type: '' @ body_content_type msg, []]"
  let ?parts = "concat (map (\<lambda>a. delimiter b # part_lines rt a) (Attachments msg)) @ [close_delimiter b]"
  have d: "no_line_break (delimiter b)" "no_line_break (close_delimiter b)"
    using assms(2) by (simp_all add: delimiter_def close_delimiter_def)
  have head: "\<forall>l \<in> set ?head. no_line_break l"
    using d by (simp add: body_content_type_def)
  have parts: "\<forall>l \<in> set ?parts. no_line_break l"
    using assms(1) d by auto
  have "lines_of (multipart_body rt b msg)
      = lines_of (concat (map (\<lambda>l. l @ CRLF) ?head)
          @ (Body msg @ CRLF @ ([] @ CRLF @ (concat (map (\<lambda>l. l @ CRLF) ?parts) @ []))))"
    by (subst multipart_body_lines) simp
  also have "\<dots> = ?head @ lines_of (Body msg @ CRLF @ ([] @ CRLF @ (concat (map (\<lambda>l. l @ CRLF) ?parts) @ [])))"
    using head by (rule lines_of_lines)
  also have "\<dots> = ?head @ lines_of (Body msg) @ lines_of ([] @ CRLF @ (concat (map (\<lambda>l. l @ CRLF) ?parts) @ []))"
    by (simp only: lines_of_CRLF)
  also have "\<dots> = ?head @ lines_of (Body msg) @ lines_of [] @ lines_of (concat (map (\<lambda>l. l @ CRLF) ?parts) @ [])"
    by (simp only: lines_of_CRLF)
  also have "\<dots> = ?head @ lines_of (Body msg) @ lines_of [] @ ?parts @ lines_of []"
    using parts by (simp only: lines_of_lines)
  finally show ?thesis by simp
qed

lemma lines76_short: "s \<noteq> [] \<Longrightarrow> length s \<le> 76 \<Longrightarrow> lines76 s = [s]"
  by (subst lines76.simps, subst lines76.simps) simp

text \<open>The delimiter lines that the encoder writes, and the lines that are none.\<close>

lemma delimiter_line_self: "delimiter_line b (delimiter b)"
  by (simp add: delimiter_line_def)

lemma close_delimiter_line_self: "close_delimiter_line b (close_delimiter b)"
  by (simp add: close_delimiter_line_def)

lemma delimiter_not_close: "\<not> close_delimiter_line b (delimiter b)"
proof
  assume "close_delimiter_line b (delimiter b)"
  then have "prefix (close_delimiter b) (delimiter b)"
    by (simp add: close_delimiter_line_def)
  then have "length (close_delimiter b) \<le> length (delimiter b)"
    by (rule prefix_length_le)
  then show False
    by (simp add: close_delimiter_def delimiter_def)
qed

lemma close_delimiter_line_prefix: "close_delimiter_line b l \<Longrightarrow> prefix (delimiter b) l"
proof -
  assume "close_delimiter_line b l"
  then have "prefix (delimiter b @ ''--'') l"
    by (simp add: close_delimiter_line_def close_delimiter_def delimiter_def)
  then show ?thesis
    by (rule append_prefixD)
qed

lemma clear_line:
  "\<not> prefix (delimiter b) l \<Longrightarrow> delimiter_line b l = False \<and> close_delimiter_line b l = False"
  using close_delimiter_line_prefix [of b l] by (auto simp: delimiter_line_def)

lemma segments_to_delimiter:
  "\<forall>l \<in> set s. \<not> prefix (delimiter b) l \<Longrightarrow>
   segments b (s @ delimiter b # rest) = s # segments b rest"
proof (induction s)
  case Nil
  show ?case
    by (simp add: delimiter_line_self delimiter_not_close)
next
  case (Cons l s)
  then show ?case
    using clear_line [of b l] by simp
qed

lemma segments_to_close:
  "\<forall>l \<in> set s. \<not> prefix (delimiter b) l \<Longrightarrow>
   segments b (s @ close_delimiter b # rest) = [s]"
proof (induction s)
  case Nil
  show ?case
    by (simp add: close_delimiter_line_self)
next
  case (Cons l s)
  then show ?case
    using clear_line [of b l] by simp
qed

lemma segments_parts:
  "\<forall>l \<in> set s. \<not> prefix (delimiter b) l \<Longrightarrow>
   \<forall>p \<in> set ps. \<forall>l \<in> set p. \<not> prefix (delimiter b) l \<Longrightarrow>
   segments b (s @ concat (map (\<lambda>p. delimiter b # p) ps) @ close_delimiter b # rest) = s # ps"
proof (induction ps arbitrary: s)
  case Nil
  then show ?case by (simp add: segments_to_close)
next
  case (Cons p ps)
  have "segments b (s @ concat (map (\<lambda>p. delimiter b # p) (p # ps)) @ close_delimiter b # rest)
      = segments b (s @ delimiter b # (p @ concat (map (\<lambda>p. delimiter b # p) ps) @ close_delimiter b # rest))"
    by simp
  also have "\<dots> = s # segments b (p @ concat (map (\<lambda>p. delimiter b # p) ps) @ close_delimiter b # rest)"
    using Cons.prems(1) by (rule segments_to_delimiter)
  also have "\<dots> = s # p # ps"
    using Cons.IH [of p] Cons.prems(2) by simp
  finally show ?case .
qed

text \<open>
  Every line of a text, as \<open>lines_of\<close> cuts it, is the start of what follows a line
  start of the text; so a body that is clear of the boundary has no line that starts
  with the delimiter.
\<close>

lemma after_breaks_Cons: "set (after_breaks cs) \<subseteq> set (after_breaks (c # cs))"
  by auto

lemma lines_of_line_starts:
  "prefix (hd (lines_of s)) s
   \<and> (\<forall>l \<in> set (tl (lines_of s)). \<exists>t \<in> set (after_breaks s). prefix l t)"
proof (induction s rule: lines_of.induct)
  case 1
  show ?case by simp
next
  case (2 c)
  show ?case by simp
next
  case (3 c d cs)
  show ?case
  proof (cases "c = CHR 0x0D \<and> d = CHR 0x0A")
    case True
    then have ih: "prefix (hd (lines_of cs)) cs
        \<and> (\<forall>l \<in> set (tl (lines_of cs)). \<exists>t \<in> set (after_breaks cs). prefix l t)"
      using 3 by blast
    obtain l0 ls where ls: "lines_of cs = l0 # ls"
      using lines_of_nonempty [of cs] by (cases "lines_of cs") auto
    have "\<exists>t \<in> set (cs # after_breaks cs). prefix l t" if "l \<in> set (lines_of cs)" for l
      using that ih by (auto simp: ls)
    then show ?thesis
      using True by simp
  next
    case False
    then have ih: "prefix (hd (lines_of (d # cs))) (d # cs)
        \<and> (\<forall>l \<in> set (tl (lines_of (d # cs))). \<exists>t \<in> set (after_breaks (d # cs)). prefix l t)"
      using 3 by blast
    have no: "(c = CHR 0x0D \<and> d = CHR 0x0A) = False"
      using False by simp
    obtain l0 ls where ls: "lines_of (d # cs) = l0 # ls"
      using lines_of_nonempty [of "d # cs"] by (cases "lines_of (d # cs)") auto
    have lines: "lines_of (c # d # cs) = (c # l0) # ls"
      by (simp add: no ls)
    have "prefix (c # l0) (c # d # cs)"
      using ih by (simp add: ls)
    moreover have "\<exists>t \<in> set (after_breaks (c # d # cs)). prefix l t" if "l \<in> set ls" for l
    proof -
      from that ih obtain t where "t \<in> set (after_breaks (d # cs))" "prefix l t"
        by (auto simp: ls)
      then show ?thesis
        using after_breaks_Cons [of "d # cs" c] by blast
    qed
    ultimately show ?thesis
      by (simp only: lines list.sel) blast
  qed
qed

lemma line_has_start:
  assumes "l \<in> set (lines_of s)"
  shows "\<exists>t \<in> set (line_starts s). prefix l t"
proof -
  obtain l0 ls where ls: "lines_of s = l0 # ls"
    using lines_of_nonempty [of s] by (cases "lines_of s") auto
  then have "l = l0 \<or> l \<in> set ls"
    using assms by simp
  then show ?thesis
    using lines_of_line_starts [of s] by (auto simp: ls line_starts_def)
qed

lemma body_lines_clear:
  assumes "body_clear_of_boundary rt msg"
  shows "\<forall>l \<in> set (lines_of (Body msg)). \<not> prefix (delimiter (make_boundary rt)) l"
proof
  fix l
  assume "l \<in> set (lines_of (Body msg))"
  then obtain t where t: "t \<in> set (line_starts (Body msg))" "prefix l t"
    using line_has_start by blast
  show "\<not> prefix (delimiter (make_boundary rt)) l"
  proof
    assume "prefix (delimiter (make_boundary rt)) l"
    then have "prefix (delimiter (make_boundary rt)) t"
      using t(2) by (rule prefix_order.trans)
    then show False
      using t(1) assms by (auto simp: body_clear_of_boundary_def list_ex_iff)
  qed
qed

text \<open>The boundary that a reader finds in the header block of the output.\<close>

lemma content_type_header:
  "filter (\<lambda>kv. header_named ''Content-Type'' (header_text kv)) (all_headers msg ct)
     = [(''Content-Type'', ct)]"
  by (simp add: all_headers_eq header_named_def header_text_def lower_byte_def)

lemma split_on_none: "c \<notin> set s \<Longrightarrow> split_on c s = [s]"
  by (induction s) auto

lemma FormatInt_chars: "CHR '';'' \<notin> set (FormatInt i)"
  using digits_chars [of "nat i"] digits_chars [of "nat (- i)"]
  by (auto simp: FormatInt_def)

lemma boundary_parameter:
  assumes "CHR '';'' \<notin> set n"
  shows "parameter ''boundary'' (''multipart/mixed; boundary=boundary-'' @ n) = Some (''boundary-'' @ n)"
  using assms
  by (simp add: parameter_def split_on_none lwsp_def lower_byte_def unquote_def)

lemma boundary_of_message:
  assumes "single_line_fields msg"
  shows "boundary_of (message_String rt msg)
     = (if Attachments msg = [] then None else Some (make_boundary rt))"
proof -
  have one: "filter (header_named ''Content-Type'') (header_block (message_String rt msg))
      = [''Content-Type: '' @ content_type_value rt msg]"
    by (simp only: filter_header_block [OF assms] content_type_header)
       (simp add: range_map_def header_text_def)
  have "field_value (''Content-Type: '' @ content_type_value rt msg) = content_type_value rt msg"
    by (simp add: field_value_def lwsp_def content_type_value_def body_content_type_def)
  then have b: "boundary_of (message_String rt msg)
      = (if prefix ''multipart/'' (media_type (content_type_value rt msg))
         then parameter ''boundary'' (content_type_value rt msg) else None)"
    by (simp add: boundary_of_def one)
  show ?thesis
  proof (cases "Attachments msg = []")
    case True
    then show ?thesis
      by (simp add: b content_type_value_def body_content_type_def media_type_def blank_def
            lower_byte_def)
  next
    case False
    have "parameter ''boundary'' (''multipart/mixed; boundary=boundary-'' @ FormatInt (sint (timeNowUnixNano rt)))
        = Some (''boundary-'' @ FormatInt (sint (timeNowUnixNano rt)))"
      using FormatInt_chars by (rule boundary_parameter)
    then show ?thesis
      using False
      by (simp add: b content_type_value_def make_boundary_def media_type_def blank_def
            lower_byte_def)
  qed
qed

text \<open>
  The type of the part that \<open>addAttachment\<close> writes is composite exactly when the
  resolved type of the attachment is, and a type that \<open>getContentType\<close> returns never
  is; so a reader decodes the part of every attachment whose explicit MIME type is
  not composite, and does not decode the part of an attachment of type
  \<open>message/rfc822\<close>.
\<close>

lemma takeWhile_to: "takeWhile (\<lambda>c. c \<noteq> a) (x @ a # r) = takeWhile (\<lambda>c. c \<noteq> a) x"
  by (induction x) auto

lemma media_type_semicolon: "media_type (m @ CHR '';'' # r) = media_type m"
proof -
  have "takeWhile (\<lambda>c. c \<noteq> CHR '';'') (dropWhile blank (m @ CHR '';'' # r))
      = takeWhile (\<lambda>c. c \<noteq> CHR '';'') (dropWhile blank m)"
  proof (induction m)
    case Nil
    show ?case by (simp add: blank_def)
  next
    case (Cons c m)
    show ?case
    proof (cases "blank c")
      case True
      then show ?thesis using Cons by simp
    next
      case False
      then show ?thesis
        using takeWhile_to [of "CHR '';''" "c # m" r] by simp
    qed
  qed
  then show ?thesis
    by (simp add: media_type_def)
qed

lemma media_type_field: "media_type (dropWhile lwsp x) = media_type x"
proof -
  have "dropWhile blank (dropWhile lwsp x) = dropWhile blank x"
    by (induction x) (auto simp: lwsp_def blank_def)
  then show ?thesis
    by (simp add: media_type_def)
qed

lemma part_type_part_lines:
  "part_type (part_lines rt att)
     = dropWhile lwsp (resolveMimeType rt att @ ''; name='' @ [dquote] @ Filename att @ [dquote])"
  by (simp add: part_type_def part_headers_part_lines header_named_def lower_byte_def
        field_value_def lwsp_def)

lemma composite_part_lines:
  "composite (part_type (part_lines rt att)) = composite (resolveMimeType rt att)"
  by (simp add: composite_def part_type_part_lines media_type_field media_type_semicolon)

lemma getContentType_discrete: "\<not> composite (getContentType rt f)"
  by (simp add: getContentType_def Let_def composite_def media_type_def blank_def lower_byte_def)

lemma resolveMimeType_discrete:
  "\<not> composite (MimeType att) \<Longrightarrow> \<not> composite (resolveMimeType rt att)"
  by (simp add: resolveMimeType_def getContentType_discrete)

lemma part_bytes_part_lines:
  "\<not> composite (MimeType att) \<Longrightarrow> part_bytes (part_lines rt att) = Some (Content att)"
  by (simp add: part_bytes_def composite_part_lines resolveMimeType_discrete part_lines_decode)

lemma message_part_not_decoded:
  "part_bytes (part_lines rt \<lparr>Filename = f, Content = bs, MimeType = ''message/rfc822''\<rparr>) = None"
proof -
  have "composite ''message/rfc822''"
    by (simp add: composite_def media_type_def blank_def lower_byte_def)
  then show ?thesis
    by (simp add: part_bytes_def composite_part_lines resolveMimeType_def)
qed

text \<open>The parts that a reader finds in the output.\<close>

lemma multipart_parts_message:
  assumes "single_line_fields msg" and "single_line_attachments msg"
    and "body_clear_of_boundary rt msg" and "Attachments msg \<noteq> []"
  shows "multipart_parts (message_String rt msg)
     = ((''Content-Type: '' @ body_content_type msg) # [] # lines_of (Body msg) @ [[]])
       # map (part_lines rt) (Attachments msg)"
proof -
  let ?b = "make_boundary rt"
  let ?s = "(''Content-Type: '' @ body_content_type msg) # [] # lines_of (Body msg) @ [[]]"
  have single: "\<forall>a \<in> set (Attachments msg). \<forall>l \<in> set (part_lines rt a). no_line_break l"
    using assms(2) part_lines_single
    by (auto simp: single_line_attachments_def list_all_iff)
  have lines: "body_lines (message_String rt msg)
      = delimiter ?b # ?s
        @ concat (map (\<lambda>a. delimiter ?b # part_lines rt a) (Attachments msg))
        @ [close_delimiter ?b, []]"
    using assms(4)
    by (simp add: body_lines_message [OF assms(1)] after_headers_def
          lines_of_multipart_body [OF single no_line_break_boundary])
  have s: "\<forall>l \<in> set ?s. \<not> prefix (delimiter ?b) l"
    using body_lines_clear [OF assms(3)] by (auto simp: delimiter_def)
  have ps: "\<forall>p \<in> set (map (part_lines rt) (Attachments msg)).
      \<forall>l \<in> set p. \<not> prefix (delimiter ?b) l"
    using part_lines_clear by auto
  have "multipart_parts (message_String rt msg) = skip_preamble ?b (body_lines (message_String rt msg))"
    using assms(4) by (simp add: multipart_parts_def boundary_of_message [OF assms(1)])
  also have "\<dots> = segments ?b (?s @ concat (map (\<lambda>p. delimiter ?b # p) (map (part_lines rt) (Attachments msg)))
          @ close_delimiter ?b # [[]])"
    by (simp add: lines delimiter_line_self delimiter_not_close comp_def)
  also have "\<dots> = ?s # map (part_lines rt) (Attachments msg)"
    using s ps by (rule segments_parts)
  finally show ?thesis .
qed

lemma multipart_parts_simple:
  assumes "single_line_fields msg" and "Attachments msg = []"
  shows "multipart_parts (message_String rt msg) = []"
  using assms(2) by (simp add: multipart_parts_def boundary_of_message [OF assms(1)])

lemma attachment_parts_message:
  assumes "single_line_fields msg" and "single_line_attachments msg"
    and "Attachments msg \<noteq> [] \<longrightarrow> body_clear_of_boundary rt msg"
  shows "attachment_parts (message_String rt msg) = map (part_lines rt) (Attachments msg)"
proof (cases "Attachments msg = []")
  case True
  then show ?thesis
    by (simp add: attachment_parts_def multipart_parts_simple [OF assms(1)])
next
  case False
  then have clear: "body_clear_of_boundary rt msg"
    using assms(3) by simp
  have "\<not> is_attachment ((''Content-Type: '' @ body_content_type msg) # [] # lines_of (Body msg) @ [[]])"
    by (simp add: is_attachment_def part_headers_def)
  moreover have "filter is_attachment (map (part_lines rt) atts) = map (part_lines rt) atts" for atts
    by (induction atts) (simp_all add: is_attachment_part_lines)
  ultimately show ?thesis
    by (simp add: attachment_parts_def multipart_parts_message [OF assms(1) assms(2) clear False])
qed

lemma filename_injected_body:
  "multipart_body example_runtime ''boundary-0'' filename_injected =
     ''--boundary-0'' @ CRLF @ ''Content-Type: text/plain; charset=utf-8'' @ CRLF @ CRLF
     @ ''Hello'' @ CRLF @ CRLF
     @ ''--boundary-0'' @ CRLF
     @ ''Content-Type: text/plain; name='' @ [dquote] @ ''a'' @ CRLF @ CRLF @ ''b'' @ [dquote] @ CRLF
     @ ''Content-Transfer-Encoding: base64'' @ CRLF
     @ ''Content-Disposition: attachment; filename='' @ [dquote] @ ''a'' @ CRLF @ CRLF @ ''b'' @ [dquote] @ CRLF
     @ CRLF @ ''AQID'' @ CRLF @ CRLF
     @ ''--boundary-0--'' @ CRLF"
  by (simp add: multipart_body_def part_text_def addAttachment_def write_encoded_lines76
        filename_injected_def example_message_def body_content_type_def resolveMimeType_def
        StdEncoding_def lines76_short)

lemma filename_injected_fields: "single_line_fields filename_injected"
  by (simp add: single_line_fields_def filename_injected_def example_message_def)

lemma filename_injected_lines:
  "body_lines (message_String example_runtime filename_injected) =
     [''--boundary-0'', ''Content-Type: text/plain; charset=utf-8'', [], ''Hello'', [],
      ''--boundary-0'',
      ''Content-Type: text/plain; name='' @ [dquote] @ ''a'', [], ''b'' @ [dquote],
      ''Content-Transfer-Encoding: base64'',
      ''Content-Disposition: attachment; filename='' @ [dquote] @ ''a'', [], ''b'' @ [dquote],
      [], ''AQID'', [], ''--boundary-0--'', []]"
proof -
  have "after_headers example_runtime filename_injected
      = multipart_body example_runtime ''boundary-0'' filename_injected"
    by (simp add: after_headers_def example_boundary) (simp add: filename_injected_def)
  then show ?thesis
    unfolding body_lines_message [OF filename_injected_fields] filename_injected_body by simp
qed

lemma filename_injected_boundary:
  "boundary_of (message_String example_runtime filename_injected) = Some ''boundary-0''"
  by (simp add: boundary_of_message [OF filename_injected_fields] example_boundary)
     (simp add: filename_injected_def)

lemma padded_delimiter_fields: "single_line_fields padded_delimiter"
  by (simp add: single_line_fields_def padded_delimiter_def example_message_def)

lemma padded_delimiter_attachments: "single_line_attachments padded_delimiter"
  by (simp add: single_line_attachments_def padded_delimiter_def)

lemma padded_delimiter_lines:
  "body_lines (message_String example_runtime padded_delimiter) =
     [''--boundary-0'', ''Content-Type: text/plain; charset=utf-8'', [], ''Hello'',
      ''--boundary-0 '', ''Content-Disposition: attachment'', [], ''AAAA'', [],
      ''--boundary-0'',
      ''Content-Type: text/plain; name='' @ [dquote] @ ''b.txt'' @ [dquote],
      ''Content-Transfer-Encoding: base64'',
      ''Content-Disposition: attachment; filename='' @ [dquote] @ ''b.txt'' @ [dquote],
      [], ''SGk='', [], ''--boundary-0--'', []]"
proof -
  have single: "\<forall>a \<in> set (Attachments padded_delimiter).
      \<forall>l \<in> set (part_lines example_runtime a). no_line_break l"
    using padded_delimiter_attachments part_lines_single
    by (auto simp: single_line_attachments_def list_all_iff)
  have b: "no_line_break ''boundary-0''"
    by simp
  have "after_headers example_runtime padded_delimiter
      = multipart_body example_runtime ''boundary-0'' padded_delimiter"
    by (simp add: after_headers_def example_boundary) (simp add: padded_delimiter_def)
  then have "body_lines (message_String example_runtime padded_delimiter)
      = lines_of (multipart_body example_runtime ''boundary-0'' padded_delimiter)"
    by (simp only: body_lines_message [OF padded_delimiter_fields])
  then show ?thesis
    unfolding lines_of_multipart_body [OF single b]
    by (simp add: delimiter_def close_delimiter_def body_content_type_def padded_delimiter_def
          example_message_def part_lines_def resolveMimeType_def StdEncoding_def lines76_short)
qed

lemma padded_delimiter_boundary:
  "boundary_of (message_String example_runtime padded_delimiter) = Some ''boundary-0''"
  by (simp add: boundary_of_message [OF padded_delimiter_fields] example_boundary)
     (simp add: padded_delimiter_def)

text \<open>
  Claim C2, as stated, fails, in two ways. A message with one attachment whose file
  name contains an empty line is encoded into a text with no attachment part: the
  part that \<open>addAttachment\<close> writes ends its headers inside the file name, before the
  \<open>Content-Disposition\<close> line. And a message with one attachment, all of whose
  fields are single lines, whose body has a delimiter line of the call's boundary,
  is encoded into a text with two attachment parts. The encoder writes the file
  name and the body as they are.
\<close>

theorem attachment_parts_miscounted:
  "length (Attachments filename_injected) = 1
   \<and> attachment_parts (message_String example_runtime filename_injected) = []
   \<and> length (Attachments padded_delimiter) = 1
   \<and> single_line_fields padded_delimiter \<and> single_line_attachments padded_delimiter
   \<and> length (attachment_parts (message_String example_runtime padded_delimiter)) = 2"
proof -
  have "attachment_parts (message_String example_runtime filename_injected) = []"
    unfolding attachment_parts_def multipart_parts_def filename_injected_boundary
      filename_injected_lines
    by (simp add: delimiter_line_def close_delimiter_line_def delimiter_def close_delimiter_def
          lwsp_def is_attachment_def part_headers_def)
  moreover have "length (attachment_parts (message_String example_runtime padded_delimiter)) = 2"
    unfolding attachment_parts_def multipart_parts_def padded_delimiter_boundary
      padded_delimiter_lines
    by (simp add: delimiter_line_def close_delimiter_line_def delimiter_def close_delimiter_def
          lwsp_def is_attachment_def part_headers_def)
  moreover have "length (Attachments filename_injected) = 1" "length (Attachments padded_delimiter) = 1"
    by (simp_all add: filename_injected_def padded_delimiter_def)
  ultimately show ?thesis
    using padded_delimiter_fields padded_delimiter_attachments by simp
qed

text \<open>
  Claim C2, amended. Take a message whose sender, addresses, subject, attachment file
  names and explicit MIME types contain no line break and, when it has attachments,
  whose body has no line that starts with the delimiter of the call's boundary. A
  reader finds the boundary of the call in the \<open>Content-Type\<close> header of the output
  when the message has attachments, and no boundary otherwise. The attachment parts
  that it finds are, in the order of the attachments, the parts that \<open>addAttachment\<close>
  writes, so there are as many as attachments; the content lines of each,
  concatenated, decode to the bytes of its attachment, and they are what a reader
  obtains from the parts when no explicit MIME type is a composite type; and no
  content line is longer than 76 characters.
\<close>

theorem attachment_parts_in_order:
  assumes "single_line_fields msg" and "single_line_attachments msg"
    and "Attachments msg \<noteq> [] \<longrightarrow> body_clear_of_boundary rt msg"
  shows "boundary_of (message_String rt msg)
           = (if Attachments msg = [] then None else Some (make_boundary rt))
       \<and> attachment_parts (message_String rt msg) = map (part_lines rt) (Attachments msg)
       \<and> length (attachment_parts (message_String rt msg)) = length (Attachments msg)
       \<and> map (\<lambda>part. DecodeString StdEncoding (concat (part_content part)))
            (attachment_parts (message_String rt msg))
           = map (\<lambda>att. Some (Content att)) (Attachments msg)
       \<and> (discrete_attachments msg \<longrightarrow>
            map part_bytes (attachment_parts (message_String rt msg))
              = map (\<lambda>att. Some (Content att)) (Attachments msg))
       \<and> (\<forall>part \<in> set (attachment_parts (message_String rt msg)).
            \<forall>l \<in> set (part_content part). length l \<le> 76)"
  using part_lines_length
  by (auto simp: attachment_parts_message [OF assms] boundary_of_message [OF assms(1)]
        part_lines_decode part_bytes_part_lines discrete_attachments_def list_all_iff)

theorem attachment_parts_in_order_witness:
  "boundary_of (message_String rank_from_last two_attachments) = Some ''boundary-0''
   \<and> length (attachment_parts (message_String rank_from_last two_attachments)) = 2
   \<and> map (\<lambda>part. DecodeString StdEncoding (concat (part_content part)))
        (attachment_parts (message_String rank_from_last two_attachments))
      = [Some (replicate 60 0), Some [72, 105]]
   \<and> map part_bytes (attachment_parts (message_String rank_from_last two_attachments))
      = [Some (replicate 60 0), Some [72, 105]]
   \<and> attachment_parts (message_String example_runtime (example_message\<lparr>Body := ''--boundary-0''\<rparr>))
      = []"
proof -
  have discrete: "discrete_attachments two_attachments"
    by (simp add: discrete_attachments_def two_attachments_def composite_def media_type_def
          blank_def lower_byte_def)
  have fields: "single_line_fields two_attachments"
    by (simp add: single_line_fields_def two_attachments_def example_message_def)
  have atts: "single_line_attachments two_attachments"
    by (simp add: single_line_attachments_def two_attachments_def)
  have body: "Attachments two_attachments \<noteq> [] \<longrightarrow> body_clear_of_boundary rank_from_last two_attachments"
    by (simp add: body_clear_of_boundary_def line_starts_def two_attachments_def example_message_def
          delimiter_def)
  have a: "Attachments two_attachments =
       [\<lparr>Filename = ''zeros.bin'', Content = replicate 60 0, MimeType = []\<rparr>,
        \<lparr>Filename = ''b.txt'', Content = [72, 105], MimeType = ''text/plain''\<rparr>]"
    by (simp add: two_attachments_def)
  have b: "make_boundary rank_from_last = ''boundary-0''"
    by (simp add: make_boundary_def rank_from_last_def FormatInt_def) (simp add: digits.simps)
  from attachment_parts_in_order [OF fields atts body]
  have bound: "boundary_of (message_String rank_from_last two_attachments)
                = (if Attachments two_attachments = [] then None else Some (make_boundary rank_from_last))"
    and len: "length (attachment_parts (message_String rank_from_last two_attachments))
                = length (Attachments two_attachments)"
    and dec: "map (\<lambda>part. DecodeString StdEncoding (concat (part_content part)))
                (attachment_parts (message_String rank_from_last two_attachments))
              = map (\<lambda>att. Some (Content att)) (Attachments two_attachments)"
    and bytes: "discrete_attachments two_attachments \<longrightarrow>
              map part_bytes (attachment_parts (message_String rank_from_last two_attachments))
                = map (\<lambda>att. Some (Content att)) (Attachments two_attachments)"
    by blast+
  from bytes discrete
  have read: "map part_bytes (attachment_parts (message_String rank_from_last two_attachments))
      = map (\<lambda>att. Some (Content att)) (Attachments two_attachments)"
    by blast
  have fields0: "single_line_fields (example_message\<lparr>Body := ''--boundary-0''\<rparr>)"
    by (simp add: single_line_fields_def example_message_def)
  have atts0: "single_line_attachments (example_message\<lparr>Body := ''--boundary-0''\<rparr>)"
    by (simp add: single_line_attachments_def example_message_def)
  have body0: "Attachments (example_message\<lparr>Body := ''--boundary-0''\<rparr>) \<noteq> []
      \<longrightarrow> body_clear_of_boundary example_runtime (example_message\<lparr>Body := ''--boundary-0''\<rparr>)"
    by (simp add: example_message_def)
  from attachment_parts_in_order [OF fields0 atts0 body0]
  have none: "attachment_parts (message_String example_runtime (example_message\<lparr>Body := ''--boundary-0''\<rparr>))
      = map (part_lines example_runtime) (Attachments (example_message\<lparr>Body := ''--boundary-0''\<rparr>))"
    by blast
  have "attachment_parts (message_String example_runtime (example_message\<lparr>Body := ''--boundary-0''\<rparr>)) = []"
    unfolding none by (simp add: example_message_def)
  then show ?thesis
    unfolding bound len dec read a b by simp
qed

section \<open>The encoder never fails\<close>

text \<open>
  Claim C10. \<open>createMessage\<close> returns a message and a nil error for every runtime and
  every message, valid or not; so \<open>gmailProvider.Send\<close> never returns the error
  \<open>unable to create message: ...\<close>.
\<close>

theorem createMessage_never_fails:
  "createMessage rt msg = Inr \<lparr>Raw = EncodeToString URLEncoding (bytes_of_string (message_String rt msg))\<rparr>
   \<and> (\<forall>e. createMessage rt msg \<noteq> Inl e)
   \<and> (\<forall>e. fst (gmailProvider_Send rt service ctx msg w) \<noteq> Inl (Wrapf ''unable to create message: '' e))"
  by (cases "service ctx \<lparr>Raw = EncodeToString URLEncoding (bytes_of_string (message_String rt msg))\<rparr> w")
     (auto simp: createMessage_def gmailProvider_Send_def split: sum.splits)

end
